theory Spec2Isabelle
  imports Main "HOL-Library.Char_ord" "HOL-Library.List_Lexorder" "HOL-Library.AList"
    "HOL-Library.Word"
begin

unbundle bit_operations_syntax

section \<open>JavaScript values and objects\<close>

text \<open>
  The canonical events, the sync-state document and the request bodies are plain
  JSON-shaped JavaScript values. \<open>Num n\<close> stands for the Number whose value is the integer
  \<open>n\<close>, for \<open>n\<close> of magnitude at most \<open>2^53\<close> (every such integer is a Number, and its
  decimal rendering below is the one of JavaScript; fractions, larger magnitudes, \<open>NaN\<close>
  and the infinities are not represented); strings are
  byte strings (the UTF-8 encoding of a well-formed JavaScript string). An object is the
  list of its own enumerable properties in the order in which JavaScript enumerates them
  (\<open>Object.keys\<close>, \<open>Object.entries\<close>, \<open>JSON.stringify\<close>): array-index keys first, in
  ascending numeric order, then the other keys in creation order. Keys are distinct.
\<close>

datatype jsval =
    Undefined
  | Null
  | Bool bool
  | Num int
  | Str string
  | Obj "(string \<times> jsval) list"

type_synonym js_object = "(string \<times> jsval) list"

datatype error_kind = TypeError | RangeError | SyntaxError | OtherError

text \<open>A thrown value: its kind and its \<open>code\<close> property (\<open>Undefined\<close> when it has none).\<close>

record js_error =
  kind :: error_kind
  code :: jsval

fun truthy :: "jsval \<Rightarrow> bool" where
  "truthy Undefined = False"
| "truthy Null = False"
| "truthy (Bool b) = b"
| "truthy (Num n) = (n \<noteq> 0)"
| "truthy (Str s) = (s \<noteq> [])"
| "truthy (Obj ps) = True"

text \<open>\<open>a || b\<close>\<close>

definition js_or :: "jsval \<Rightarrow> jsval \<Rightarrow> jsval" where
  "js_or a b = (if truthy a then a else b)"

text \<open>\<open>obj.key\<close> on a plain object: \<open>undefined\<close> when the property is absent.\<close>

definition js_get :: "js_object \<Rightarrow> string \<Rightarrow> jsval" where
  "js_get ps k = (case map_of ps k of None \<Rightarrow> Undefined | Some v \<Rightarrow> v)"

definition is_digit :: "char \<Rightarrow> bool" where
  "is_digit c = (c \<in> set ''0123456789'')"

definition digit_val :: "char \<Rightarrow> nat" where
  "digit_val c = of_char c - 48"

definition nat_of_digits :: "string \<Rightarrow> nat" where
  "nat_of_digits s = foldl (\<lambda>n c. 10 * n + digit_val c) 0 s"

text \<open>An array index: the canonical decimal form of an integer in \<open>0 .. 2^32 - 2\<close>.\<close>

definition is_array_index :: "string \<Rightarrow> bool" where
  "is_array_index s =
     (s \<noteq> [] \<and> list_all is_digit s \<and> (s = ''0'' \<or> hd s \<noteq> CHR ''0'')
      \<and> nat_of_digits s < 4294967295)"

fun insert_index :: "string \<Rightarrow> 'a \<Rightarrow> (string \<times> 'a) list \<Rightarrow> (string \<times> 'a) list" where
  "insert_index k v [] = [(k, v)]"
| "insert_index k v ((k', v') # ps) =
     (if is_array_index k' \<and> nat_of_digits k' < nat_of_digits k
      then (k', v') # insert_index k v ps
      else (k, v) # (k', v') # ps)"

text \<open>
  \<open>obj[k] = v\<close>: an existing property keeps its place; a new array-index key goes among
  the array-index keys, any other new key goes last.
\<close>

definition js_put :: "(string \<times> 'a) list \<Rightarrow> string \<Rightarrow> 'a \<Rightarrow> (string \<times> 'a) list" where
  "js_put ps k v =
     (if k \<notin> fst ` set ps \<and> is_array_index k then insert_index k v ps
      else AList.update k v ps)"

text \<open>\<open>delete obj[k]\<close>\<close>

definition js_delete :: "(string \<times> 'a) list \<Rightarrow> string \<Rightarrow> (string \<times> 'a) list" where
  "js_delete ps k = AList.delete k ps"

subsection \<open>Conversion to string\<close>

definition digit_char :: "nat \<Rightarrow> char" where
  "digit_char n = (''0123456789'' ! (n mod 10))"

fun show_nat :: "nat \<Rightarrow> string" where
  "show_nat n = (if n < 10 then [digit_char n] else show_nat (n div 10) @ [digit_char (n mod 10)])"

declare show_nat.simps [simp del]

definition show_int :: "int \<Rightarrow> string" where
  "show_int i = (if i < 0 then CHR ''-'' # show_nat (nat (- i)) else show_nat (nat i))"

text \<open>\<open>String(v)\<close>, as a template literal, \<open>Array.prototype.join\<close> and a property key apply it.\<close>

fun to_string :: "jsval \<Rightarrow> string" where
  "to_string Undefined = ''undefined''"
| "to_string Null = ''null''"
| "to_string (Bool b) = (if b then ''true'' else ''false'')"
| "to_string (Num n) = show_int n"
| "to_string (Str s) = s"
| "to_string (Obj ps) = ''[object Object]''"

fun intercalate :: "string \<Rightarrow> string list \<Rightarrow> string" where
  "intercalate sep [] = []"
| "intercalate sep [x] = x"
| "intercalate sep (x # y # ys) = x @ sep @ intercalate sep (y # ys)"

subsection \<open>\<open>JSON.stringify\<close>\<close>

definition hex_digit :: "nat \<Rightarrow> char" where
  "hex_digit n = (''0123456789abcdef'' ! (n mod 16))"

text \<open>The escapes of \<open>JSON.stringify\<close> for one code unit of a string.\<close>

definition json_quote_char :: "char \<Rightarrow> string" where
  "json_quote_char c =
     (if c = CHR 0x22 then [CHR 0x5C, CHR 0x22]
      else if c = CHR 0x5C then [CHR 0x5C, CHR 0x5C]
      else if c = CHR 0x08 then [CHR 0x5C, CHR ''b'']
      else if c = CHR 0x09 then [CHR 0x5C, CHR ''t'']
      else if c = CHR 0x0A then [CHR 0x5C, CHR ''n'']
      else if c = CHR 0x0C then [CHR 0x5C, CHR ''f'']
      else if c = CHR 0x0D then [CHR 0x5C, CHR ''r'']
      else if (of_char c :: nat) < 32
        then [CHR 0x5C, CHR ''u'', CHR ''0'', CHR ''0'',
              hex_digit (of_char c div 16), hex_digit (of_char c)]
      else [c])"

definition json_quote :: "string \<Rightarrow> string" where
  "json_quote s = CHR 0x22 # concat (map json_quote_char s) @ [CHR 0x22]"

text \<open>
  \<open>json_ser v\<close> is \<open>None\<close> where \<open>JSON.stringify\<close> yields \<open>undefined\<close>; a property with
  such a value is left out of the enclosing object.
\<close>

fun json_ser :: "jsval \<Rightarrow> string option"
  and json_members :: "(string \<times> jsval) list \<Rightarrow> string list" where
  "json_ser Undefined = None"
| "json_ser Null = Some ''null''"
| "json_ser (Bool b) = Some (if b then ''true'' else ''false'')"
| "json_ser (Num n) = Some (show_int n)"
| "json_ser (Str s) = Some (json_quote s)"
| "json_ser (Obj ps) = Some (''{'' @ intercalate '','' (json_members ps) @ ''}'')"
| "json_members [] = []"
| "json_members ((k, v) # ps) =
     (case json_ser v of
        None \<Rightarrow> json_members ps
      | Some t \<Rightarrow> (json_quote k @ '':'' @ t) # json_members ps)"

text \<open>\<open>JSON.stringify(obj)\<close> for an object argument.\<close>

definition JSON_stringify :: "js_object \<Rightarrow> string" where
  "JSON_stringify ps = the (json_ser (Obj ps))"

section \<open>Content hash (\<open>hashUtils.js\<close>)\<close>

type_synonym event = js_object

definition hashFields :: "event \<Rightarrow> js_object" where
  "hashFields event =
     [(''name'', js_or (js_get event ''name'') (Str '''')),
      (''dateStart'', js_or (js_get event ''dateStart'') (Str '''')),
      (''dateEnd'', js_or (js_get event ''dateEnd'') (Str '''')),
      (''location'', js_or (js_get event ''location'') (Obj [])),
      (''category'', js_or (js_get event ''category'') (Str '''')),
      (''level'', js_or (js_get event ''level'') (Str '''')),
      (''prize'', js_or (js_get event ''prize'') (Str '''')),
      (''url'', js_or (js_get event ''url'') (Str ''''))]"

text \<open>
  \<open>Object.keys(hashFields).sort()\<close>, then the loop that copies the properties in that
  order into a fresh object.
\<close>

definition sortedFields :: "js_object \<Rightarrow> js_object" where
  "sortedFields hf = foldl (\<lambda>acc key. js_put acc key (js_get hf key)) [] (sort (map fst hf))"

definition hashInput :: "event \<Rightarrow> string" where
  "hashInput event = JSON_stringify (sortedFields (hashFields event))"

text \<open>
  \<open>digest\<close> is the hexadecimal MD5 digest of Node's \<open>crypto\<close> module, a library outside the
  repository; the hash is its first 16 characters.
\<close>

definition calculateEventHash :: "(string \<Rightarrow> string) \<Rightarrow> event \<Rightarrow> string" where
  "calculateEventHash digest event = take 16 (digest (hashInput event))"

section \<open>MD5\<close>

text \<open>
  The MD5 message digest (RFC 1321) in lower-case hexadecimal, which is what
  \<open>crypto.createHash('md5').update(s).digest('hex')\<close> computes. The hash function above
  takes the digest as a parameter; this instance serves to evaluate it on concrete events.
\<close>

definition md5_K :: "32 word list" where
  "md5_K =
     [0xd76aa478, 0xe8c7b756, 0x242070db, 0xc1bdceee, 0xf57c0faf, 0x4787c62a,
      0xa8304613, 0xfd469501, 0x698098d8, 0x8b44f7af, 0xffff5bb1, 0x895cd7be,
      0x6b901122, 0xfd987193, 0xa679438e, 0x49b40821, 0xf61e2562, 0xc040b340,
      0x265e5a51, 0xe9b6c7aa, 0xd62f105d, 0x02441453, 0xd8a1e681, 0xe7d3fbc8,
      0x21e1cde6, 0xc33707d6, 0xf4d50d87, 0x455a14ed, 0xa9e3e905, 0xfcefa3f8,
      0x676f02d9, 0x8d2a4c8a, 0xfffa3942, 0x8771f681, 0x6d9d6122, 0xfde5380c,
      0xa4beea44, 0x4bdecfa9, 0xf6bb4b60, 0xbebfbc70, 0x289b7ec6, 0xeaa127fa,
      0xd4ef3085, 0x04881d05, 0xd9d4d039, 0xe6db99e5, 0x1fa27cf8, 0xc4ac5665,
      0xf4292244, 0x432aff97, 0xab9423a7, 0xfc93a039, 0x655b59c3, 0x8f0ccc92,
      0xffeff47d, 0x85845dd1, 0x6fa87e4f, 0xfe2ce6e0, 0xa3014314, 0x4e0811a1,
      0xf7537e82, 0xbd3af235, 0x2ad7d2bb, 0xeb86d391]"

definition md5_S :: "nat list" where
  "md5_S =
     [7, 12, 17, 22, 7, 12, 17, 22, 7, 12, 17, 22, 7, 12, 17, 22,
      5, 9, 14, 20, 5, 9, 14, 20, 5, 9, 14, 20, 5, 9, 14, 20,
      4, 11, 16, 23, 4, 11, 16, 23, 4, 11, 16, 23, 4, 11, 16, 23,
      6, 10, 15, 21, 6, 10, 15, 21, 6, 10, 15, 21, 6, 10, 15, 21]"

definition rotl :: "32 word \<Rightarrow> nat \<Rightarrow> 32 word" where
  "rotl x n = (push_bit n x) OR (drop_bit (32 - n) x)"

type_synonym md5_state = "32 word \<times> 32 word \<times> 32 word \<times> 32 word"

definition md5_step :: "32 word list \<Rightarrow> md5_state \<Rightarrow> nat \<Rightarrow> md5_state" where
  "md5_step m st i =
     (case st of (a, b, c, d) \<Rightarrow>
       (let f = (if i < 16 then (b AND c) OR (NOT b AND d)
                 else if i < 32 then (d AND b) OR (NOT d AND c)
                 else if i < 48 then b XOR c XOR d
                 else c XOR (b OR NOT d));
            g = (if i < 16 then i
                 else if i < 32 then (5 * i + 1) mod 16
                 else if i < 48 then (3 * i + 5) mod 16
                 else (7 * i) mod 16);
            f' = f + a + md5_K ! i + m ! g
        in (d, b + rotl f' (md5_S ! i), b, c)))"

definition md5_block :: "md5_state \<Rightarrow> 32 word list \<Rightarrow> md5_state" where
  "md5_block st m =
     (case st of (a0, b0, c0, d0) \<Rightarrow>
        (case foldl (md5_step m) st [0..<64] of (a, b, c, d) \<Rightarrow> (a0 + a, b0 + b, c0 + c, d0 + d)))"

fun le_bytes :: "nat \<Rightarrow> nat \<Rightarrow> nat list" where
  "le_bytes 0 x = []"
| "le_bytes (Suc k) x = (x mod 256) # le_bytes k (x div 256)"

definition md5_pad :: "nat list \<Rightarrow> nat list" where
  "md5_pad bs =
     (let n = length bs; z = (119 - n mod 64) mod 64 in
      bs @ [128] @ replicate z 0 @ le_bytes 8 (8 * n))"

fun le_words :: "nat list \<Rightarrow> 32 word list" where
  "le_words (b0 # b1 # b2 # b3 # bs) =
     (word_of_nat b0 + push_bit 8 (word_of_nat b1) + push_bit 16 (word_of_nat b2)
        + push_bit 24 (word_of_nat b3)) # le_words bs"
| "le_words _ = []"

fun chunks :: "nat \<Rightarrow> 'a list \<Rightarrow> 'a list list" where
  "chunks n [] = []"
| "chunks n (x # xs) = take n (x # xs) # chunks n (drop (n - 1) xs)"

definition hex_byte :: "nat \<Rightarrow> string" where
  "hex_byte n = [hex_digit (n div 16), hex_digit n]"

definition le_hex :: "32 word \<Rightarrow> string" where
  "le_hex w = concat (map (\<lambda>i. hex_byte (unat (drop_bit (8 * i) w AND 0xff))) [0..<4])"

definition md5_hex :: "string \<Rightarrow> string" where
  "md5_hex s =
     (case foldl md5_block (0x67452301, 0xefcdab89, 0x98badcfe, 0x10325476)
             (chunks 16 (le_words (md5_pad (map of_char s)))) of
        (a, b, c, d) \<Rightarrow> le_hex a @ le_hex b @ le_hex c @ le_hex d)"

section \<open>The built-in \<open>Date\<close>\<close>

text \<open>
  The date arithmetic of ECMA-262 (\<open>DayFromYear\<close>, \<open>YearFromTime\<close>, \<open>MonthFromTime\<close>,
  \<open>DateFromTime\<close>, \<open>MakeDay\<close>, \<open>MakeDate\<close>, \<open>TimeClip\<close>). A time value is a number of
  milliseconds since 1970-01-01T00:00:00Z; a \<open>Date\<close> is its time value, \<open>None\<close> for the
  invalid date. The year, month and date of a time value \<open>t\<close> are taken from its day number
  \<open>Day t\<close>.
\<close>

definition InLeapYear :: "int \<Rightarrow> bool" where
  "InLeapYear y = (y mod 4 = 0 \<and> (y mod 100 \<noteq> 0 \<or> y mod 400 = 0))"

definition DaysInYear :: "int \<Rightarrow> int" where
  "DaysInYear y = (if InLeapYear y then 366 else 365)"

definition DayFromYear :: "int \<Rightarrow> int" where
  "DayFromYear y =
     365 * (y - 1970) + (y - 1969) div 4 - (y - 1901) div 100 + (y - 1601) div 400"

text \<open>Each year starts its number of days after the year before.\<close>

lemma div_step:
  fixes a n :: int
  assumes "0 < n"
  shows "(a + 1) div n = a div n + (if (a + 1) mod n = 0 then 1 else 0)"
proof -
  have a: "a + 1 = n * (a div n) + (a mod n + 1)"
    by (simp only: add.assoc [symmetric] mult_div_mod_eq)
  have r: "0 \<le> a mod n" "a mod n < n" using assms by simp_all
  show ?thesis
  proof (cases "a mod n + 1 = n")
    case True
    have e: "a + 1 = n * (a div n + 1) + 0"
      by (subst a, subst True) (simp add: algebra_simps)
    have "(a + 1) div n = a div n + 1"
      by (rule int_div_pos_eq [OF e]) (use assms in simp_all)
    moreover have "(a + 1) mod n = 0"
      by (rule int_mod_pos_eq [OF e]) (use assms in simp_all)
    ultimately show ?thesis by simp
  next
    case False
    have b: "0 \<le> a mod n + 1" "a mod n + 1 < n"
      using r False by simp_all
    have "(a + 1) div n = a div n"
      by (rule int_div_pos_eq [OF a b])
    moreover have "(a + 1) mod n = a mod n + 1"
      by (rule int_mod_pos_eq [OF a b])
    ultimately show ?thesis using r by simp
  qed
qed

lemma div_step_shift:
  fixes y n k c :: int
  assumes "0 < n" and c: "c = n * k + 1"
  shows "(y + 1 - c) div n = (y - c) div n + (if y mod n = 0 then 1 else 0)"
proof -
  have "y - c + 1 = y - n * k"
    by (simp only: c)
  then have m: "(y - c + 1) mod n = y mod n"
    by (simp only: minus_mult_div_eq_mod mod_diff_right_eq [of y "n * k" n, symmetric]
          mod_mult_self1_is_0 diff_zero)
  have e: "y + 1 - c = y - c + 1"
    by simp
  show ?thesis
    by (simp only: e div_step [OF assms(1)] m)
qed

lemma DayFromYear_Suc: "DayFromYear (y + 1) = DayFromYear y + DaysInYear y"
proof -
  define A B C where "A = (y - 1969) div 4" and "B = (y - 1901) div 100"
    and "C = (y - 1601) div 400"
  define P Q R where "P \<longleftrightarrow> y mod 4 = 0" and "Q \<longleftrightarrow> y mod 100 = 0" and "R \<longleftrightarrow> y mod 400 = 0"
  have s4: "(y + 1 - 1969) div 4 = A + (if P then 1 else 0)"
    unfolding A_def P_def by (rule div_step_shift [where k = 492]) simp_all
  have s100: "(y + 1 - 1901) div 100 = B + (if Q then 1 else 0)"
    unfolding B_def Q_def by (rule div_step_shift [where k = 19]) simp_all
  have s400: "(y + 1 - 1601) div 400 = C + (if R then 1 else 0)"
    unfolding C_def R_def by (rule div_step_shift [where k = 4]) simp_all
  have m1: "Q" if "R"
    using that mod_mod_cancel [of 100 400 y] by (simp add: Q_def R_def)
  have m2: "P" if "Q"
    using that mod_mod_cancel [of 4 100 y] by (simp add: P_def Q_def)
  have l: "DayFromYear (y + 1) =
        365 * (y + 1 - 1970) + (A + (if P then 1 else 0)) - (B + (if Q then 1 else 0))
        + (C + (if R then 1 else 0))"
    by (simp only: DayFromYear_def s4 s100 s400)
  have r: "DayFromYear y = 365 * (y - 1970) + A - B + C"
    by (simp only: DayFromYear_def A_def B_def C_def)
  have d: "DaysInYear y = (if P \<and> (\<not> Q \<or> R) then 366 else 365)"
    by (simp only: DaysInYear_def InLeapYear_def P_def Q_def R_def)
  show ?thesis
    unfolding l r d using m1 m2 by (cases P; cases Q; cases R; simp)
qed

text \<open>The largest year that starts on or before day \<open>d\<close>, searched upwards from \<open>y\<close>.\<close>

function year_search :: "int \<Rightarrow> int \<Rightarrow> int" where
  "year_search d y = (if DayFromYear (y + 1) \<le> d then year_search d (y + 1) else y)"
  by pat_completeness auto
termination
proof (relation "measure (\<lambda>(d, y). nat (d + 1 - DayFromYear (y + 1)))")
  show "wf (measure (\<lambda>(d, y). nat (d + 1 - DayFromYear (y + 1))))"
    by simp
next
  fix d y :: int
  assume "DayFromYear (y + 1) \<le> d"
  moreover have "DayFromYear (y + 1 + 1) > DayFromYear (y + 1)"
    by (simp only: DayFromYear_Suc [of "y + 1"]) (simp add: DaysInYear_def)
  ultimately show "((d, y + 1), (d, y)) \<in> measure (\<lambda>(d, y). nat (d + 1 - DayFromYear (y + 1)))"
    by simp
qed

declare year_search.simps [simp del]

definition YearFromDay :: "int \<Rightarrow> int" where
  "YearFromDay d = year_search d (1970 + (if 0 \<le> d then d div 366 else d div 365) - 1)"

definition DayWithinYear :: "int \<Rightarrow> int" where
  "DayWithinYear d = d - DayFromYear (YearFromDay d)"

text \<open>The day within the year on which month \<open>m\<close> (0 to 11) starts.\<close>

definition month_start :: "bool \<Rightarrow> int \<Rightarrow> int" where
  "month_start leap m =
     (if m = 0 then 0 else if m = 1 then 31
      else [59, 90, 120, 151, 181, 212, 243, 273, 304, 334] ! nat (m - 2)
           + (if leap then 1 else 0))"

definition MonthFromDay :: "int \<Rightarrow> int" where
  "MonthFromDay d =
     (let w = DayWithinYear d; leap = InLeapYear (YearFromDay d) in
      if w < month_start leap 1 then 0
      else if w < month_start leap 2 then 1
      else if w < month_start leap 3 then 2
      else if w < month_start leap 4 then 3
      else if w < month_start leap 5 then 4
      else if w < month_start leap 6 then 5
      else if w < month_start leap 7 then 6
      else if w < month_start leap 8 then 7
      else if w < month_start leap 9 then 8
      else if w < month_start leap 10 then 9
      else if w < month_start leap 11 then 10
      else 11)"

definition DateFromDay :: "int \<Rightarrow> int" where
  "DateFromDay d =
     DayWithinYear d - month_start (InLeapYear (YearFromDay d)) (MonthFromDay d) + 1"

definition MakeDay :: "int \<Rightarrow> int \<Rightarrow> int \<Rightarrow> int" where
  "MakeDay year month dt =
     (let ym = year + month div 12; mn = month mod 12 in
      DayFromYear ym + month_start (InLeapYear ym) mn + dt - 1)"

definition msPerDay :: int where
  "msPerDay = 86400000"

definition Day :: "int \<Rightarrow> int" where
  "Day t = t div msPerDay"

definition TimeWithinDay :: "int \<Rightarrow> int" where
  "TimeWithinDay t = t mod msPerDay"

definition MakeDate :: "int \<Rightarrow> int \<Rightarrow> int" where
  "MakeDate day time = day * msPerDay + time"

definition TimeClip :: "int \<Rightarrow> int option" where
  "TimeClip t = (if \<bar>t\<bar> \<le> 8640000000000000 then Some t else None)"

definition days_in_month :: "int \<Rightarrow> int \<Rightarrow> int" where
  "days_in_month y m =
     (if m = 2 then (if InLeapYear y then 29 else 28)
      else if m = 4 \<or> m = 6 \<or> m = 9 \<or> m = 11 then 30
      else 31)"

text \<open>
  \<open>new Date(s)\<close>. For a string of the form \<open>YYYY-MM-DDT00:00:00Z\<close> that names a day of
  the calendar (which is what \<open>formatDate\<close> builds from the ISO strings of the adapters)
  the time value is the one ECMA-262 prescribes. What any other string parses to depends
  on the engine: it is taken from the parameter \<open>parse\<close>, which gives the time value that
  the engine finds, \<open>None\<close> when it finds none.
\<close>

definition new_Date :: "(string \<Rightarrow> int option) \<Rightarrow> string \<Rightarrow> int option" where
  "new_Date parse s =
     (let y = int (nat_of_digits (take 4 s));
          m = int (nat_of_digits (take 2 (drop 5 s)));
          d = int (nat_of_digits (take 2 (drop 8 s)))
      in
      if length s = 20 \<and> drop 10 s = ''T00:00:00Z'' \<and> s ! 4 = CHR ''-'' \<and> s ! 7 = CHR ''-''
         \<and> list_all is_digit (take 4 s @ take 2 (drop 5 s) @ take 2 (drop 8 s))
         \<and> 1 \<le> m \<and> m \<le> 12 \<and> 1 \<le> d \<and> d \<le> days_in_month y m
      then TimeClip (MakeDate (MakeDay y (m - 1) d) 0)
      else parse s)"

text \<open>\<open>date.getUTCDate()\<close> and \<open>date.setUTCDate(dt)\<close>\<close>

definition getUTCDate :: "int option \<Rightarrow> int option" where
  "getUTCDate date = map_option (\<lambda>t. DateFromDay (Day t)) date"

definition setUTCDate :: "int option \<Rightarrow> int option \<Rightarrow> int option" where
  "setUTCDate date dt =
     (case (date, dt) of
        (Some t, Some n) \<Rightarrow>
          TimeClip (MakeDate (MakeDay (YearFromDay (Day t)) (MonthFromDay (Day t)) n)
                      (TimeWithinDay t))
      | _ \<Rightarrow> None)"

definition pad2 :: "nat \<Rightarrow> string" where
  "pad2 n = [digit_char (n div 10 mod 10), digit_char (n mod 10)]"

definition pad4 :: "nat \<Rightarrow> string" where
  "pad4 n = pad2 (n div 100) @ pad2 n"

definition pad6 :: "nat \<Rightarrow> string" where
  "pad6 n = pad2 (n div 10000) @ pad4 n"

text \<open>The year of \<open>toISOString\<close>: four digits from 0 to 9999, else a sign and six digits.\<close>

definition iso_year :: "int \<Rightarrow> string" where
  "iso_year y =
     (if 0 \<le> y \<and> y \<le> 9999 then pad4 (nat y)
      else (if y < 0 then ''-'' else ''+'') @ pad6 (nat \<bar>y\<bar>))"

definition iso_date :: "int \<Rightarrow> int \<Rightarrow> int \<Rightarrow> string" where
  "iso_date y m d = iso_year y @ ''-'' @ pad2 (nat m) @ ''-'' @ pad2 (nat d)"

definition pad3 :: "nat \<Rightarrow> string" where
  "pad3 n = digit_char (n div 100 mod 10) # pad2 n"

text \<open>The time of day of \<open>toISOString\<close>: \<open>HH:mm:ss.sss\<close>.\<close>

definition iso_time :: "int \<Rightarrow> string" where
  "iso_time ms =
     pad2 (nat (ms div 3600000)) @ '':'' @ pad2 (nat (ms div 60000 mod 60)) @ '':''
       @ pad2 (nat (ms div 1000 mod 60)) @ ''.'' @ pad3 (nat (ms mod 1000))"

text \<open>\<open>date.toISOString()\<close>: a \<open>RangeError\<close> on the invalid date.\<close>

definition toISOString :: "int option \<Rightarrow> js_error + string" where
  "toISOString date =
     (case date of
        None \<Rightarrow> Inl \<lparr>kind = RangeError, code = Undefined\<rparr>
      | Some t \<Rightarrow>
          Inr (iso_date (YearFromDay (Day t)) (MonthFromDay (Day t) + 1) (DateFromDay (Day t))
                 @ ''T'' @ iso_time (TimeWithinDay t) @ ''Z''))"

text \<open>\<open>s.split('T')[0]\<close>\<close>

definition split_T :: "string \<Rightarrow> string" where
  "split_T s = takeWhile (\<lambda>c. c \<noteq> CHR ''T'') s"

section \<open>Request bodies (\<open>syncService.js\<close>)\<close>

text \<open>
  \<open>dateString.split\<close> exists on strings only; on any other value the call throws.
  \<open>parse\<close> is the engine's part of \<open>new Date\<close>.
\<close>

definition formatDate :: "(string \<Rightarrow> int option) \<Rightarrow> jsval \<Rightarrow> bool \<Rightarrow> js_error + string" where
  "formatDate parse dateString isEndDate =
     (case dateString of
        Str s \<Rightarrow>
          (let dateStr = split_T s in
           if isEndDate then
             (let date = new_Date parse (dateStr @ ''T00:00:00Z'');
                  date' = setUTCDate date (map_option (\<lambda>n. n + 1) (getUTCDate date))
              in case toISOString date' of
                   Inl e \<Rightarrow> Inl e
                 | Inr str \<Rightarrow> Inr (split_T str))
           else Inr dateStr)
      | _ \<Rightarrow> Inl \<lparr>kind = TypeError, code = Undefined\<rparr>)"

definition formatLocation :: "jsval \<Rightarrow> string" where
  "formatLocation location =
     (if \<not> truthy location then ''''
      else
        (let props = (case location of Obj ps \<Rightarrow> ps | _ \<Rightarrow> []) in
         intercalate '', ''
           (map to_string
              (filter truthy [js_get props ''venue'', js_get props ''city'',
                              js_get props ''country'']))))"

definition buildEventData :: "(string \<Rightarrow> int option) \<Rightarrow> event \<Rightarrow> js_error + jsval" where
  "buildEventData parse event =
     (let location = formatLocation (js_get event ''location'') in
      case formatDate parse (js_get event ''dateStart'') False of
        Inl e \<Rightarrow> Inl e
      | Inr startDate \<Rightarrow>
          (case formatDate parse (js_get event ''dateEnd'') True of
             Inl e \<Rightarrow> Inl e
           | Inr endDate \<Rightarrow>
               Inr (Obj
                 [(''summary'', js_get event ''name''),
                  (''location'', Str location),
                  (''description'', js_or (js_get event ''description'') (Str '''')),
                  (''start'', Obj [(''date'', Str startDate), (''timeZone'', Str ''UTC'')]),
                  (''end'', Obj [(''date'', Str endDate), (''timeZone'', Str ''UTC'')]),
                  (''transparency'', Str ''transparent''),
                  (''visibility'', Str ''public''),
                  (''source'',
                     Obj [(''title'', Str (to_string (js_get event ''source'') @ '' Calendar'')),
                          (''url'', js_or (js_get event ''url'') (Str ''''))])])))"

section \<open>Sync state (\<open>syncStateManager.js\<close>)\<close>

record sync_record =
  googleEventId :: string
  lastSynced :: string
  hash :: string

record sport_stats =
  totalEvents :: nat
  lastUpdate :: string

record sport_state =
  calendarId :: string
  events :: "(string \<times> sync_record) list"
  stats :: sport_stats

record sync_state =
  version :: string
  lastSync :: "string option"
  sports :: "(string \<times> sport_state) list"

text \<open>
  Reading \<open>obj[k]\<close> on the \<open>events\<close> or the \<open>sports\<close> object finds an own property, or
  else, for the names below, a property that every object inherits from
  \<open>Object.prototype\<close> (a function, or for \<open>__proto__\<close> the prototype itself: truthy, and
  without the fields of a record), or else \<open>undefined\<close>.
\<close>

definition object_prototype_keys :: "string list" where
  "object_prototype_keys =
     [''constructor'', ''__defineGetter__'', ''__defineSetter__'', ''hasOwnProperty'',
      ''__lookupGetter__'', ''__lookupSetter__'', ''isPrototypeOf'', ''propertyIsEnumerable'',
      ''toString'', ''valueOf'', ''__proto__'', ''toLocaleString'']"

datatype 'a lookup = Absent | Own 'a | Inherited

definition obj_lookup :: "(string \<times> 'a) list \<Rightarrow> string \<Rightarrow> 'a lookup" where
  "obj_lookup ps k =
     (case map_of ps k of
        Some v \<Rightarrow> Own v
      | None \<Rightarrow> if k \<in> set object_prototype_keys then Inherited else Absent)"

section \<open>The world outside the repository\<close>

text \<open>
  The requests the reconciler and the repair pass send to the calendar API (the first
  argument is the calendar id; the event id of an update is a JavaScript value, since it
  can be \<open>undefined\<close>), and how a request ends: \<open>Resolved i\<close> carries the \<open>data.id\<close> of the
  response, which only \<open>events.insert\<close> reads.
\<close>

datatype api_call =
    EventsInsert string jsval
  | EventsUpdate string jsval jsval
  | EventsDelete string string
  | EventsGet string string

datatype api_outcome = Resolved string | Rejected js_error

fun is_resolved :: "api_outcome \<Rightarrow> bool" where
  "is_resolved (Resolved i) = True"
| "is_resolved (Rejected e) = False"

text \<open>
  \<open>api\<close> answers a request, given the requests sent before it in the run; \<open>clock n\<close> is
  what the \<open>n\<close>-th \<open>new Date().toISOString()\<close> of the run reads; \<open>authorize\<close> and
  \<open>getOrCreateCalendar\<close> are the outcomes of authentication and of calendar provisioning;
  \<open>readState\<close> is the outcome of reading and parsing the sync-state file (the body of the
  \<open>try\<close> of \<open>loadSyncState\<close>); \<open>writeState n\<close> is the outcome of the \<open>n\<close>-th attempt of
  the run to write it (\<open>mkdir\<close>, then \<open>writeFile\<close>); \<open>digest\<close> is the MD5 hex digest;
  \<open>dateParse\<close> is the engine's part of \<open>new Date(s)\<close>.
\<close>

record world =
  api :: "api_call list \<Rightarrow> api_call \<Rightarrow> api_outcome"
  clock :: "nat \<Rightarrow> string"
  authorize :: "js_error option"
  getOrCreateCalendar :: "string \<Rightarrow> js_error + string"
  readState :: "js_error + sync_state"
  writeState :: "nat \<Rightarrow> js_error option"
  digest :: "string \<Rightarrow> string"
  dateParse :: "string \<Rightarrow> int option"

text \<open>
  What a run has done so far: the requests sent with their outcomes, the number of clock
  reads and of write attempts, the document last written to the sync-state file, and the
  \<open>hash\<close> properties it has put on inherited objects (by the name under which the object
  was read).
\<close>

record run =
  calls :: "(api_call \<times> api_outcome) list"
  ticks :: nat
  writes :: nat
  written :: "sync_state option"
  inherited :: "(string \<times> string) list"

definition run0 :: run where
  "run0 = \<lparr>calls = [], ticks = 0, writes = 0, written = None, inherited = []\<rparr>"

definition call_api :: "world \<Rightarrow> api_call \<Rightarrow> run \<Rightarrow> api_outcome \<times> run" where
  "call_api w c r =
     (let out = api w (map fst (calls r)) c in (out, r\<lparr>calls := calls r @ [(c, out)]\<rparr>))"

definition now :: "world \<Rightarrow> run \<Rightarrow> string \<times> run" where
  "now w r = (clock w (ticks r), r\<lparr>ticks := Suc (ticks r)\<rparr>)"

definition loadSyncState :: "world \<Rightarrow> js_error + sync_state" where
  "loadSyncState w =
     (case readState w of
        Inr st \<Rightarrow> Inr st
      | Inl error \<Rightarrow>
          if code error = Str ''ENOENT''
          then Inr \<lparr>version = ''1.0'', lastSync = None, sports = []\<rparr>
          else Inl error)"

text \<open>
  The retry loop of \<open>saveSyncState\<close>, with \<open>k\<close> attempts left; the last failure is thrown.
  The waiting between attempts is not modelled.
\<close>

fun save_attempts :: "world \<Rightarrow> sync_state \<Rightarrow> nat \<Rightarrow> run \<Rightarrow> js_error option \<times> run" where
  "save_attempts w syncState 0 r = (None, r)"
| "save_attempts w syncState (Suc k) r =
     (case writeState w (writes r) of
        None \<Rightarrow> (None, r\<lparr>writes := Suc (writes r), written := Some syncState\<rparr>)
      | Some error \<Rightarrow>
          if k = 0 then (Some error, r\<lparr>writes := Suc (writes r)\<rparr>)
          else save_attempts w syncState k (r\<lparr>writes := Suc (writes r)\<rparr>))"

definition saveSyncState :: "world \<Rightarrow> sync_state \<Rightarrow> run \<Rightarrow> js_error option \<times> run" where
  "saveSyncState w syncState r = save_attempts w syncState 3 r"

section \<open>Reconciliation (\<open>syncService.js\<close>)\<close>

record sync_stats =
  created :: nat
  updated :: nat
  deleted :: nat
  unchanged :: nat

text \<open>
  The variables a pass works on: \<open>sportSyncState\<close>, the counters \<open>stats\<close> (here
  \<open>syncStats\<close>), and the run.
\<close>

record pass =
  sportSyncState :: sport_state
  syncStats :: sync_stats
  trace :: run

definition createCalendarEvent ::
  "world \<Rightarrow> string \<Rightarrow> event \<Rightarrow> run \<Rightarrow> (js_error + string) \<times> run" where
  "createCalendarEvent w calId event r =
     (case buildEventData (dateParse w) event of
        Inl e \<Rightarrow> (Inl e, r)
      | Inr eventData \<Rightarrow>
          (case call_api w (EventsInsert calId eventData) r of
             (Resolved i, r') \<Rightarrow> (Inr i, r')
           | (Rejected e, r') \<Rightarrow> (Inl e, r')))"

definition updateCalendarEvent ::
  "world \<Rightarrow> string \<Rightarrow> jsval \<Rightarrow> event \<Rightarrow> run \<Rightarrow> js_error option \<times> run" where
  "updateCalendarEvent w calId gid event r =
     (case buildEventData (dateParse w) event of
        Inl e \<Rightarrow> (Some e, r)
      | Inr eventData \<Rightarrow>
          (case call_api w (EventsUpdate calId gid eventData) r of
             (Resolved i, r') \<Rightarrow> (None, r')
           | (Rejected e, r') \<Rightarrow> (Some e, r')))"

definition deleteCalendarEvent ::
  "world \<Rightarrow> string \<Rightarrow> string \<Rightarrow> run \<Rightarrow> js_error option \<times> run" where
  "deleteCalendarEvent w calId gid r =
     (case call_api w (EventsDelete calId gid) r of
        (Resolved i, r') \<Rightarrow> (None, r')
      | (Rejected e, r') \<Rightarrow> (Some e, r'))"

text \<open>
  \<open>localEventsMap\<close>: a \<open>Map\<close> keeps its keys in the order of their first insertion and
  \<open>set\<close> on a present key replaces the value in place. Keys are the values of \<open>event.id\<close>,
  compared as values (ids are primitive values).
\<close>

definition localEventsMap :: "event list \<Rightarrow> (jsval \<times> event) list" where
  "localEventsMap localEvents =
     foldl (\<lambda>m event. AList.update (js_get event ''id'') event m) [] localEvents"

abbreviation evs :: "pass \<Rightarrow> (string \<times> sync_record) list" where
  "evs p \<equiv> events (sportSyncState p)"

definition set_events :: "pass \<Rightarrow> (string \<times> sync_record) list \<Rightarrow> pass" where
  "set_events p es = p\<lparr>sportSyncState := (sportSyncState p)\<lparr>events := es\<rparr>\<rparr>"

text \<open>
  The \<open>hash\<close> that is read from an inherited object: the one the run has put on that
  object, or else the one it has put on \<open>Object.prototype\<close>, or else \<open>undefined\<close>.
\<close>

definition inherited_hash :: "run \<Rightarrow> string \<Rightarrow> string option" where
  "inherited_hash r k =
     (case map_of (inherited r) k of
        Some h \<Rightarrow> Some h
      | None \<Rightarrow> map_of (inherited r) ''__proto__'')"

text \<open>
  The body of the loop over \<open>localEventsMap.entries()\<close>: CREATE, UPDATE or SKIP. The
  property key of \<open>sportSyncState.events[eventId]\<close> is the string of \<open>eventId\<close>. A throw
  inside a \<open>try\<close> is caught and only logged. When \<open>existingSync\<close> is an inherited object,
  its \<open>googleEventId\<close> is \<open>undefined\<close> and the new \<open>hash\<close> is put on that object.
\<close>

definition sync_event :: "world \<Rightarrow> string \<Rightarrow> jsval \<times> event \<Rightarrow> pass \<Rightarrow> pass" where
  "sync_event w calId entry p =
     (let eventId = to_string (fst entry); event = snd entry;
          eventHash = calculateEventHash (digest w) event
      in case obj_lookup (events (sportSyncState p)) eventId of
           Absent \<Rightarrow>
             (case createCalendarEvent w calId event (trace p) of
                (Inr gid, r) \<Rightarrow>
                  (let (t, r') = now w r in
                   (set_events p
                      (js_put (events (sportSyncState p)) eventId
                         \<lparr>googleEventId = gid, lastSynced = t, hash = eventHash\<rparr>))
                   \<lparr>syncStats := (syncStats p)\<lparr>created := created (syncStats p) + 1\<rparr>,
                    trace := r'\<rparr>)
              | (Inl error, r) \<Rightarrow> p\<lparr>trace := r\<rparr>)
         | Own existingSync \<Rightarrow>
             if hash existingSync \<noteq> eventHash then
               (case updateCalendarEvent w calId (Str (googleEventId existingSync)) event
                       (trace p) of
                  (None, r) \<Rightarrow>
                    (let (t, r') = now w r in
                     (set_events p
                        (js_put (events (sportSyncState p)) eventId
                           (existingSync\<lparr>hash := eventHash, lastSynced := t\<rparr>)))
                     \<lparr>syncStats := (syncStats p)\<lparr>updated := updated (syncStats p) + 1\<rparr>,
                      trace := r'\<rparr>)
                | (Some error, r) \<Rightarrow> p\<lparr>trace := r\<rparr>)
             else p\<lparr>syncStats := (syncStats p)\<lparr>unchanged := unchanged (syncStats p) + 1\<rparr>\<rparr>
         | Inherited \<Rightarrow>
             if inherited_hash (trace p) eventId \<noteq> Some eventHash then
               (case updateCalendarEvent w calId Undefined event (trace p) of
                  (None, r) \<Rightarrow>
                    (let (t, r') = now w r in
                     p\<lparr>syncStats := (syncStats p)\<lparr>updated := updated (syncStats p) + 1\<rparr>,
                       trace := r'\<lparr>inherited := AList.update eventId eventHash (inherited r')\<rparr>\<rparr>)
                | (Some error, r) \<Rightarrow> p\<lparr>trace := r\<rparr>)
             else p\<lparr>syncStats := (syncStats p)\<lparr>unchanged := unchanged (syncStats p) + 1\<rparr>\<rparr>)"

definition sync_events :: "world \<Rightarrow> string \<Rightarrow> (jsval \<times> event) list \<Rightarrow> pass \<Rightarrow> pass" where
  "sync_events w calId m p = foldl (\<lambda>p entry. sync_event w calId entry p) p m"

text \<open>
  The loop over \<open>existingEventIds\<close>: DELETE for the keys that \<open>localEventsMap\<close> lacks.
  Reading \<open>syncData.googleEventId\<close> is outside the \<open>try\<close>: were the key gone, the
  \<open>TypeError\<close> would end the pass; it is returned with the run as it then is.
\<close>

fun delete_events ::
  "world \<Rightarrow> string \<Rightarrow> (jsval \<times> event) list \<Rightarrow> string list \<Rightarrow> pass
     \<Rightarrow> (js_error \<times> run) + pass" where
  "delete_events w calId m [] p = Inr p"
| "delete_events w calId m (eventId # ids) p =
     (if Str eventId \<notin> set (map fst m) then
        (case map_of (events (sportSyncState p)) eventId of
           None \<Rightarrow> Inl (\<lparr>kind = TypeError, code = Undefined\<rparr>, trace p)
         | Some syncData \<Rightarrow>
             (case deleteCalendarEvent w calId (googleEventId syncData) (trace p) of
                (None, r) \<Rightarrow>
                  delete_events w calId m ids
                    ((set_events p (js_delete (events (sportSyncState p)) eventId))
                     \<lparr>syncStats := (syncStats p)\<lparr>deleted := deleted (syncStats p) + 1\<rparr>,
                      trace := r\<rparr>)
              | (Some error, r) \<Rightarrow> delete_events w calId m ids (p\<lparr>trace := r\<rparr>)))
      else delete_events w calId m ids p)"

text \<open>The variables at the start of a pass: the loaded sport state and zeroed counters.\<close>

definition pass0 :: "sport_state \<Rightarrow> run \<Rightarrow> pass" where
  "pass0 st r =
     \<lparr>sportSyncState = st,
      syncStats = \<lparr>created = 0, updated = 0, deleted = 0, unchanged = 0\<rparr>,
      trace = r\<rparr>"

text \<open>Steps 4 to 7 of \<open>syncWithCalendar\<close>: the two loops, on the loaded sport state.\<close>

definition reconcile ::
  "world \<Rightarrow> string \<Rightarrow> event list \<Rightarrow> sport_state \<Rightarrow> run \<Rightarrow> (js_error \<times> run) + pass" where
  "reconcile w calId localEvents st r =
     (let m = localEventsMap localEvents;
          p = sync_events w calId m (pass0 st r)
      in delete_events w calId m (map fst (events (sportSyncState p))) p)"

record sync_result =
  success :: bool
  resultCalendarId :: string
  resultStats :: sync_stats

text \<open>
  The whole of \<open>syncWithCalendar\<close>. The outer \<open>catch\<close> logs and rethrows, so every
  failure outside the per-event \<open>try\<close> blocks is the result of the call. When
  \<open>syncState.sports[sportId]\<close> is an inherited object, it has no \<open>events\<close> and the first
  use of them throws.
\<close>

definition syncWithCalendar ::
  "world \<Rightarrow> string \<Rightarrow> event list \<Rightarrow> run \<Rightarrow> (js_error + sync_result) \<times> run" where
  "syncWithCalendar w sportId localEvents r =
     (case authorize w of
        Some e \<Rightarrow> (Inl e, r)
      | None \<Rightarrow>
     (case getOrCreateCalendar w sportId of
        Inl e \<Rightarrow> (Inl e, r)
      | Inr calId \<Rightarrow>
     (case loadSyncState w of
        Inl e \<Rightarrow> (Inl e, r)
      | Inr syncState \<Rightarrow>
     (case obj_lookup (sports syncState) sportId of
        Inherited \<Rightarrow> (Inl \<lparr>kind = TypeError, code = Undefined\<rparr>, r)
      | found \<Rightarrow>
     (let (st, r1) =
            (case found of
               Own s \<Rightarrow> (s, r)
             | _ \<Rightarrow>
                 (let (t, r') = now w r in
                  (\<lparr>calendarId = calId, events = [],
                    stats = \<lparr>totalEvents = 0, lastUpdate = t\<rparr>\<rparr>, r')))
      in case reconcile w calId localEvents st r1 of
           Inl (e, r') \<Rightarrow> (Inl e, r')
         | Inr p \<Rightarrow>
             (let (t1, r2) = now w (trace p);
                  st' = (sportSyncState p)
                          \<lparr>stats := \<lparr>totalEvents = length localEvents, lastUpdate = t1\<rparr>\<rparr>;
                  (t2, r3) = now w r2;
                  syncState' = syncState\<lparr>sports := js_put (sports syncState) sportId st',
                                         lastSync := Some t2\<rparr>
              in case saveSyncState w syncState' r3 of
                   (Some e, r4) \<Rightarrow> (Inl e, r4)
                 | (None, r4) \<Rightarrow>
                     (Inr \<lparr>success = True, resultCalendarId = calId,
                           resultStats = syncStats p\<rparr>, r4)))))))"

section \<open>Repair (\<open>syncService.js\<close>)\<close>

record repair_pass =
  repairEvents :: "(string \<times> sync_record) list"
  repairedCount :: nat
  repairTrace :: run

text \<open>
  The loop over \<open>Object.entries(sportState.events)\<close>: only an error whose \<open>code\<close> is the
  number 404 removes the record.
\<close>

fun repair_events ::
  "world \<Rightarrow> string \<Rightarrow> (string \<times> sync_record) list \<Rightarrow> repair_pass \<Rightarrow> repair_pass" where
  "repair_events w calId [] p = p"
| "repair_events w calId ((eventId, syncData) # es) p =
     (case call_api w (EventsGet calId (googleEventId syncData)) (repairTrace p) of
        (Resolved i, r) \<Rightarrow> repair_events w calId es (p\<lparr>repairTrace := r\<rparr>)
      | (Rejected error, r) \<Rightarrow>
          if code error = Num 404 then
            repair_events w calId es
              (p\<lparr>repairEvents := js_delete (repairEvents p) eventId,
                 repairedCount := repairedCount p + 1, repairTrace := r\<rparr>)
          else repair_events w calId es (p\<lparr>repairTrace := r\<rparr>))"

record repair_result =
  repaired :: nat
  total :: nat

text \<open>
  The whole of \<open>repairSyncState\<close>. An inherited object in the place of the sport state has
  no \<open>events\<close>, and \<open>Object.keys\<close> of them throws.
\<close>

definition repairSyncState ::
  "world \<Rightarrow> string \<Rightarrow> run \<Rightarrow> (js_error + repair_result) \<times> run" where
  "repairSyncState w sportId r =
     (case authorize w of
        Some e \<Rightarrow> (Inl e, r)
      | None \<Rightarrow>
     (case loadSyncState w of
        Inl e \<Rightarrow> (Inl e, r)
      | Inr syncState \<Rightarrow>
     (case obj_lookup (sports syncState) sportId of
        Absent \<Rightarrow> (Inr \<lparr>repaired = 0, total = 0\<rparr>, r)
      | Inherited \<Rightarrow> (Inl \<lparr>kind = TypeError, code = Undefined\<rparr>, r)
      | Own sportState \<Rightarrow>
          (let totalCount = length (events sportState);
               p = repair_events w (calendarId sportState) (events sportState)
                     \<lparr>repairEvents = events sportState, repairedCount = 0, repairTrace = r\<rparr>;
               syncState' = syncState\<lparr>sports :=
                              js_put (sports syncState) sportId
                                (sportState\<lparr>events := repairEvents p\<rparr>)\<rparr>
           in if repairedCount p > 0 then
                (case saveSyncState w syncState' (repairTrace p) of
                   (Some e, r') \<Rightarrow> (Inl e, r')
                 | (None, r') \<Rightarrow>
                     (Inr \<lparr>repaired = repairedCount p, total = totalCount\<rparr>, r'))
              else (Inr \<lparr>repaired = repairedCount p, total = totalCount\<rparr>, repairTrace p)))))"

section \<open>Notions of the specification\<close>

text \<open>The fields the hash projects, and those among them that default to the empty string.\<close>

definition projected_fields :: "string list" where
  "projected_fields =
     [''name'', ''dateStart'', ''dateEnd'', ''location'', ''category'', ''level'', ''prize'',
      ''url'']"

definition scalar_fields :: "string list" where
  "scalar_fields =
     [''name'', ''dateStart'', ''dateEnd'', ''category'', ''level'', ''prize'', ''url'']"


text \<open>
  The input contract of a pass: every event id is a string and no two events of the set
  share an id.
\<close>

fun is_string :: "jsval \<Rightarrow> bool" where
  "is_string (Str s) = True"
| "is_string v = False"

definition unique_ids :: "event list \<Rightarrow> bool" where
  "unique_ids E =
     (list_all (\<lambda>e. is_string (js_get e ''id'')) E \<and> distinct (map (\<lambda>e. js_get e ''id'') E))"

definition event_key :: "event \<Rightarrow> string" where
  "event_key e = to_string (js_get e ''id'')"

text \<open>No id of the event set is the name of a property inherited from \<open>Object.prototype\<close>.\<close>

definition plain_ids :: "event list \<Rightarrow> bool" where
  "plain_ids E = list_all (\<lambda>e. event_key e \<notin> set object_prototype_keys) E"

text \<open>The decision rule of the specification, on the records of the prior state.\<close>

datatype action = CREATE | SKIP | UPDATE string

definition decide :: "(string \<Rightarrow> string) \<Rightarrow> (string \<times> sync_record) list \<Rightarrow> event \<Rightarrow> action" where
  "decide dg records e =
     (case map_of records (event_key e) of
        None \<Rightarrow> CREATE
      | Some r \<Rightarrow> if calculateEventHash dg e = hash r then SKIP else UPDATE (googleEventId r))"

text \<open>
  The request an action sends for an event; none when the request body cannot be built
  (the operation then fails before anything is sent).
\<close>

definition requests_of ::
  "(string \<Rightarrow> int option) \<Rightarrow> string \<Rightarrow> event \<Rightarrow> action \<Rightarrow> api_call list" where
  "requests_of parse calId e a =
     (case a of
        SKIP \<Rightarrow> []
      | CREATE \<Rightarrow>
          (case buildEventData parse e of
             Inl err \<Rightarrow> []
           | Inr d \<Rightarrow> [EventsInsert calId d])
      | UPDATE gid \<Rightarrow>
          (case buildEventData parse e of
             Inl err \<Rightarrow> []
           | Inr d \<Rightarrow> [EventsUpdate calId (Str gid) d]))"

text \<open>The records of the prior state whose id is not an id of the event set.\<close>

definition orphans :: "event list \<Rightarrow> (string \<times> sync_record) list \<Rightarrow> (string \<times> sync_record) list" where
  "orphans E records = filter (\<lambda>(i, r). Str i \<notin> set (map (\<lambda>e. js_get e ''id'') E)) records"

text \<open>
  With unique ids, \<open>localEventsMap\<close> has one entry for each event, in the order of the
  event set.
\<close>

definition entries :: "event list \<Rightarrow> (jsval \<times> event) list" where
  "entries E = map (\<lambda>e. (js_get e ''id'', e)) E"

text \<open>
  The variables of a pass that started from \<open>p\<close> when the first loop reaches event
  number \<open>k\<close>, and whether the operation decided for that event then fails (its request
  body cannot be built, or the request is rejected).
\<close>

definition state_at :: "world \<Rightarrow> string \<Rightarrow> event list \<Rightarrow> pass \<Rightarrow> nat \<Rightarrow> pass" where
  "state_at w calId E p k = sync_events w calId (localEventsMap (take k E)) p"

definition op_fails :: "world \<Rightarrow> string \<Rightarrow> action \<Rightarrow> event \<Rightarrow> run \<Rightarrow> bool" where
  "op_fails w calId a e r =
     (case a of
        SKIP \<Rightarrow> False
      | CREATE \<Rightarrow> isl (fst (createCalendarEvent w calId e r))
      | UPDATE gid \<Rightarrow> fst (updateCalendarEvent w calId (Str gid) e r) \<noteq> None)"

definition failed_at :: "world \<Rightarrow> string \<Rightarrow> event list \<Rightarrow> pass \<Rightarrow> nat \<Rightarrow> bool" where
  "failed_at w calId E p k =
     op_fails w calId (decide (digest w) (evs p) (E ! k)) (E ! k)
       (trace (state_at w calId E p k))"

text \<open>
  The outcome of an existence check that the repair pass takes for a definitive not-found:
  a rejection whose error code is the number 404.
\<close>

fun not_found :: "api_outcome \<Rightarrow> bool" where
  "not_found (Rejected e) = (code e = Num 404)"
| "not_found (Resolved i) = False"

text \<open>Calendar dates, and the day after a date.\<close>

definition calendar_date :: "int \<Rightarrow> int \<Rightarrow> int \<Rightarrow> bool" where
  "calendar_date y m d = (1 \<le> m \<and> m \<le> 12 \<and> 1 \<le> d \<and> d \<le> days_in_month y m)"

definition next_day :: "int \<times> int \<times> int \<Rightarrow> int \<times> int \<times> int" where
  "next_day ymd =
     (case ymd of (y, m, d) \<Rightarrow>
        if d < days_in_month y m then (y, m, d + 1)
        else if m < 12 then (y, m + 1, 1)
        else (y + 1, 1, 1))"

text \<open>Reading a property path such as \<open>data.start.date\<close>.\<close>

fun js_path :: "jsval \<Rightarrow> string list \<Rightarrow> jsval" where
  "js_path v [] = v"
| "js_path v (k # ks) = (case v of Obj ps \<Rightarrow> js_path (js_get ps k) ks | _ \<Rightarrow> Undefined)"

section \<open>Example inputs\<close>

text \<open>
  A world in which every request succeeds (an insert answers with the remote id \<open>g\<close>
  followed by the number of requests sent before), the sync-state file does not exist yet
  and every write succeeds.
\<close>

definition world0 :: world where
  "world0 =
     \<lparr>api = (\<lambda>h c. Resolved (''g'' @ show_nat (length h))),
      clock = (\<lambda>n. ''t'' @ show_nat n),
      authorize = None,
      getOrCreateCalendar = (\<lambda>s. Inr ''cal''),
      readState = Inl \<lparr>kind = OtherError, code = Str ''ENOENT''\<rparr>,
      writeState = (\<lambda>n. None),
      digest = md5_hex,
      dateParse = (\<lambda>s. None)\<rparr>"


text \<open>
  A sync-state document with two records for the sport \<open>bwf\<close>, and a world that holds it
  in which the event \<open>g1\<close> is gone from the calendar (the existence check answers 404) and
  every other request fails with a server error.
\<close>

definition sport1 :: sport_state where
  "sport1 =
     \<lparr>calendarId = ''cal'',
      events =
        [(''A'', \<lparr>googleEventId = ''g1'', lastSynced = ''t'', hash = ''h1''\<rparr>),
         (''B'', \<lparr>googleEventId = ''g2'', lastSynced = ''t'', hash = ''h2''\<rparr>)],
      stats = \<lparr>totalEvents = 2, lastUpdate = ''t''\<rparr>\<rparr>"

definition state1 :: sync_state where
  "state1 = \<lparr>version = ''1.0'', lastSync = Some ''t'', sports = [(''bwf'', sport1)]\<rparr>"

definition world404 :: world where
  "world404 =
     world0
       \<lparr>api := (\<lambda>h c. if c = EventsGet ''cal'' ''g1''
                       then Rejected \<lparr>kind = OtherError, code = Num 404\<rparr>
                       else Rejected \<lparr>kind = OtherError, code = Num 500\<rparr>),
        readState := Inr state1\<rparr>"

section \<open>Properties of the content hash\<close>

lemma map_of_insert_index:
  "k \<notin> fst ` set ps \<Longrightarrow> map_of (insert_index k v ps) = (map_of ps)(k \<mapsto> v)"
  by (induction ps) (auto simp: fun_upd_twist)

lemma map_of_js_put: "map_of (js_put ps k v) = (map_of ps)(k \<mapsto> v)"
  by (simp add: js_put_def map_of_insert_index update_conv')

lemma js_get_js_put: "js_get (js_put e k v) k' = (if k' = k then v else js_get e k')"
  by (simp add: js_get_def map_of_js_put)

lemma js_get_Cons: "js_get ((k', v) # ps) k = (if k = k' then v else js_get ps k)"
  by (simp add: js_get_def)

lemma js_or_Undefined: "js_or Undefined d = d"
  by (simp add: js_or_def)

lemma sorted_keys_hashFields:
  "sort (map fst (hashFields e)) =
     [''category'', ''dateEnd'', ''dateStart'', ''level'', ''location'', ''name'', ''prize'',
      ''url'']"
  by (simp add: hashFields_def)

lemma js_get_hashFields:
  "js_get (hashFields e) ''category'' = js_or (js_get e ''category'') (Str '''')"
  "js_get (hashFields e) ''dateEnd'' = js_or (js_get e ''dateEnd'') (Str '''')"
  "js_get (hashFields e) ''dateStart'' = js_or (js_get e ''dateStart'') (Str '''')"
  "js_get (hashFields e) ''level'' = js_or (js_get e ''level'') (Str '''')"
  "js_get (hashFields e) ''location'' = js_or (js_get e ''location'') (Obj [])"
  "js_get (hashFields e) ''name'' = js_or (js_get e ''name'') (Str '''')"
  "js_get (hashFields e) ''prize'' = js_or (js_get e ''prize'') (Str '''')"
  "js_get (hashFields e) ''url'' = js_or (js_get e ''url'') (Str '''')"
  by (simp_all add: hashFields_def js_get_def)

lemma not_array_index: "\<not> is_digit (hd s) \<Longrightarrow> \<not> is_array_index s"
  by (cases s) (auto simp: is_array_index_def)

text \<open>The object that is serialized: the eight projected fields, in the order of their names.\<close>

lemma sortedFields_hashFields:
  "sortedFields (hashFields e) =
     [(''category'', js_or (js_get e ''category'') (Str '''')),
      (''dateEnd'', js_or (js_get e ''dateEnd'') (Str '''')),
      (''dateStart'', js_or (js_get e ''dateStart'') (Str '''')),
      (''level'', js_or (js_get e ''level'') (Str '''')),
      (''location'', js_or (js_get e ''location'') (Obj [])),
      (''name'', js_or (js_get e ''name'') (Str '''')),
      (''prize'', js_or (js_get e ''prize'') (Str '''')),
      (''url'', js_or (js_get e ''url'') (Str ''''))]"
  by (simp add: sortedFields_def sorted_keys_hashFields js_get_hashFields js_put_def
        not_array_index is_digit_def)

lemma js_get_sortedFields_scalar:
  assumes "k \<in> set scalar_fields"
  shows "js_get (sortedFields (hashFields e)) k = js_or (js_get e k) (Str '''')"
proof -
  from assms consider "k = ''name''" | "k = ''dateStart''" | "k = ''dateEnd''"
    | "k = ''category''" | "k = ''level''" | "k = ''prize''" | "k = ''url''"
    unfolding scalar_fields_def by fastforce
  then show ?thesis
    by cases (simp_all add: sortedFields_hashFields js_get_Cons)
qed



lemma hash_cong_defaults:
  assumes "\<forall>k\<in>set scalar_fields.
             js_or (js_get e1 k) (Str '''') = js_or (js_get e2 k) (Str '''')"
    and "js_or (js_get e1 ''location'') (Obj []) = js_or (js_get e2 ''location'') (Obj [])"
  shows "calculateEventHash dg e1 = calculateEventHash dg e2"
  using assms
  by (simp add: calculateEventHash_def hashInput_def sortedFields_hashFields
        scalar_fields_def)

lemma hash_js_put_empty:
  assumes k: "k \<in> set scalar_fields" and u: "js_get e k = Undefined"
  shows "calculateEventHash dg (js_put e k (Str '''')) = calculateEventHash dg e"
proof (rule hash_cong_defaults)
  show "\<forall>k'\<in>set scalar_fields.
          js_or (js_get (js_put e k (Str '''')) k') (Str '''') = js_or (js_get e k') (Str '''')"
    using u by (simp add: js_get_js_put js_or_def)
  have "k \<noteq> ''location''"
    using k by (auto simp: scalar_fields_def)
  then show "js_or (js_get (js_put e k (Str '''')) ''location'') (Obj [])
             = js_or (js_get e ''location'') (Obj [])"
    by (simp add: js_get_js_put)
qed

lemma serialization_all_absent:
  \<open>JSON_stringify
     [(''category'', Str ''''), (''dateEnd'', Str ''''), (''dateStart'', Str ''''),
      (''level'', Str ''''), (''location'', Obj []), (''name'', Str ''''),
      (''prize'', Str ''''), (''url'', Str '''')]
   = ''{"category":"","dateEnd":"","dateStart":"","level":"","location":{},"name":"","prize":"","url":""}''\<close>
  by (simp add: JSON_stringify_def json_quote_def json_quote_char_def)




text \<open>
  C10. The hash is the first 16 characters of the digest of the serialized projection, in
  which every projected scalar field that is absent or \<open>undefined\<close> is the empty string
  and an absent \<open>location\<close> is the empty object. So setting an absent scalar field to the
  empty string does not change the hash, and an event without any projected field hashes
  as the serialization shown.
\<close>

theorem hash_defaults:
  \<open>calculateEventHash dg e =
     take 16 (dg (JSON_stringify
       [(''category'', js_or (js_get e ''category'') (Str '''')),
        (''dateEnd'', js_or (js_get e ''dateEnd'') (Str '''')),
        (''dateStart'', js_or (js_get e ''dateStart'') (Str '''')),
        (''level'', js_or (js_get e ''level'') (Str '''')),
        (''location'', js_or (js_get e ''location'') (Obj [])),
        (''name'', js_or (js_get e ''name'') (Str '''')),
        (''prize'', js_or (js_get e ''prize'') (Str '''')),
        (''url'', js_or (js_get e ''url'') (Str ''''))]))
   \<and> (k \<in> set scalar_fields \<and> js_get e k = Undefined
      \<longrightarrow> js_get (sortedFields (hashFields e)) k = Str ''''
          \<and> calculateEventHash dg (js_put e k (Str '''')) = calculateEventHash dg e)
   \<and> (js_get e ''location'' = Undefined
      \<longrightarrow> js_get (sortedFields (hashFields e)) ''location'' = Obj [])
   \<and> ((\<forall>f \<in> set projected_fields. js_get e f = Undefined)
      \<longrightarrow> calculateEventHash dg e =
            take 16 (dg ''{"category":"","dateEnd":"","dateStart":"","level":"","location":{},"name":"","prize":"","url":""}''))\<close>
proof (intro conjI impI)
  show "calculateEventHash dg e =
     take 16 (dg (JSON_stringify
       [(''category'', js_or (js_get e ''category'') (Str '''')),
        (''dateEnd'', js_or (js_get e ''dateEnd'') (Str '''')),
        (''dateStart'', js_or (js_get e ''dateStart'') (Str '''')),
        (''level'', js_or (js_get e ''level'') (Str '''')),
        (''location'', js_or (js_get e ''location'') (Obj [])),
        (''name'', js_or (js_get e ''name'') (Str '''')),
        (''prize'', js_or (js_get e ''prize'') (Str '''')),
        (''url'', js_or (js_get e ''url'') (Str ''''))]))"
    by (simp only: calculateEventHash_def hashInput_def sortedFields_hashFields)
next
  assume a: "k \<in> set scalar_fields \<and> js_get e k = Undefined"
  then show "js_get (sortedFields (hashFields e)) k = Str ''''"
    by (simp add: js_get_sortedFields_scalar js_or_Undefined)
  from a show "calculateEventHash dg (js_put e k (Str '''')) = calculateEventHash dg e"
    by (simp add: hash_js_put_empty)
next
  assume "js_get e ''location'' = Undefined"
  then show "js_get (sortedFields (hashFields e)) ''location'' = Obj []"
    by (simp add: sortedFields_hashFields js_get_Cons js_or_Undefined)
next
  assume a: "\<forall>f \<in> set projected_fields. js_get e f = Undefined"
  have "sortedFields (hashFields e) =
     [(''category'', Str ''''), (''dateEnd'', Str ''''), (''dateStart'', Str ''''),
      (''level'', Str ''''), (''location'', Obj []), (''name'', Str ''''),
      (''prize'', Str ''''), (''url'', Str '''')]"
    using a by (simp add: sortedFields_hashFields projected_fields_def js_or_Undefined)
  then show "calculateEventHash dg e =
            take 16 (dg ''{\"category\":\"\",\"dateEnd\":\"\",\"dateStart\":\"\",\"level\":\"\",\"location\":{},\"name\":\"\",\"prize\":\"\",\"url\":\"\"}'')"
    by (simp only: calculateEventHash_def hashInput_def serialization_all_absent)
qed

theorem hash_defaults_witness:
  \<open>calculateEventHash md5_hex [(''id'', Str ''A'')] = ''8bb044902c47e3fd''
   \<and> js_get (sortedFields (hashFields [(''id'', Str ''A'')])) ''name'' = Str ''''
   \<and> calculateEventHash md5_hex (js_put [(''id'', Str ''A'')] ''name'' (Str ''''))
       = calculateEventHash md5_hex [(''id'', Str ''A'')]
   \<and> js_get (sortedFields (hashFields [(''id'', Str ''A'')])) ''location'' = Obj []\<close>
proof -
  have a1: "''name'' \<in> set scalar_fields \<and> js_get [(''id'', Str ''A'')] ''name'' = Undefined"
    by (simp add: scalar_fields_def js_get_def)
  have a2: "js_get [(''id'', Str ''A'')] ''location'' = Undefined"
    by (simp add: js_get_def)
  have a3: "\<forall>f \<in> set projected_fields. js_get [(''id'', Str ''A'')] f = Undefined"
    by (simp add: projected_fields_def js_get_def)
  have h:
    \<open>take 16 (md5_hex ''{"category":"","dateEnd":"","dateStart":"","level":"","location":{},"name":"","prize":"","url":""}'')
     = ''8bb044902c47e3fd''\<close>
    by code_simp
  note T = hash_defaults [of md5_hex "[(''id'', Str ''A'')]" "''name''"]
  from T a3 have
    \<open>calculateEventHash md5_hex [(''id'', Str ''A'')] =
     take 16 (md5_hex ''{"category":"","dateEnd":"","dateStart":"","level":"","location":{},"name":"","prize":"","url":""}'')\<close>
    by blast
  from this h have 1: "calculateEventHash md5_hex [(''id'', Str ''A'')] = ''8bb044902c47e3fd''"
    by (rule trans)
  from T a1 have 2: "js_get (sortedFields (hashFields [(''id'', Str ''A'')])) ''name'' = Str ''''
      \<and> calculateEventHash md5_hex (js_put [(''id'', Str ''A'')] ''name'' (Str ''''))
          = calculateEventHash md5_hex [(''id'', Str ''A'')]"
    by blast
  from T a2 have 3: "js_get (sortedFields (hashFields [(''id'', Str ''A'')])) ''location'' = Obj []"
    by blast
  from 1 2 3 show ?thesis by blast
qed

section \<open>Properties of the sync state store\<close>

text \<open>
  C8. When reading the sync-state file fails because the file does not exist,
  \<open>loadSyncState\<close> returns the empty default state (version \<open>1.0\<close>, no sports) and does not
  throw; any other failure of the read is thrown to the caller.
\<close>

theorem loadSyncState_read_failure:
  assumes "readState w = Inl error"
  shows "loadSyncState w =
     (if code error = Str ''ENOENT''
      then Inr \<lparr>version = ''1.0'', lastSync = None, sports = []\<rparr>
      else Inl error)"
  using assms by (simp add: loadSyncState_def)

theorem loadSyncState_read_failure_witness:
  "loadSyncState world0 = Inr \<lparr>version = ''1.0'', lastSync = None, sports = []\<rparr>
   \<and> loadSyncState (world0\<lparr>readState := Inl \<lparr>kind = OtherError, code = Str ''EACCES''\<rparr>\<rparr>)
       = Inl \<lparr>kind = OtherError, code = Str ''EACCES''\<rparr>"
  using loadSyncState_read_failure [of world0 "\<lparr>kind = OtherError, code = Str ''ENOENT''\<rparr>"]
    loadSyncState_read_failure
      [of "world0\<lparr>readState := Inl \<lparr>kind = OtherError, code = Str ''EACCES''\<rparr>\<rparr>"
          "\<lparr>kind = OtherError, code = Str ''EACCES''\<rparr>"]
  by (simp add: world0_def)

section \<open>Properties of the date arithmetic\<close>

lemma DaysInYear_bounds: "365 \<le> DaysInYear y" "DaysInYear y \<le> 366"
  by (simp_all add: DaysInYear_def)

lemma DayFromYear_1970: "DayFromYear 1970 = 0"
  by (simp add: DayFromYear_def)

lemma DayFromYear_pred: "DayFromYear (y - 1) = DayFromYear y - DaysInYear (y - 1)"
  using DayFromYear_Suc [of "y - 1"] by simp

lemma DayFromYear_strict_mono:
  assumes "a < b"
  shows "DayFromYear a < DayFromYear b"
  using assms
proof (induction b rule: int_gr_induct)
  case base
  then show ?case
    using DaysInYear_bounds(1) [of a] by (simp add: DayFromYear_Suc)
next
  case (step i)
  then show ?case
    using DaysInYear_bounds(1) [of i] by (simp add: DayFromYear_Suc)
qed

lemma DayFromYear_mono: "a \<le> b \<Longrightarrow> DayFromYear a \<le> DayFromYear b"
  using DayFromYear_strict_mono [of a b] by (cases "a = b") auto

lemma DayFromYear_upper: "0 \<le> k \<Longrightarrow> DayFromYear (1970 + k) \<le> 366 * k"
proof (induction k rule: int_ge_induct)
  case base
  then show ?case by (simp add: DayFromYear_1970)
next
  case (step i)
  have "DayFromYear (1970 + (i + 1)) = DayFromYear (1970 + i) + DaysInYear (1970 + i)"
    using DayFromYear_Suc [of "1970 + i"] by (simp add: add.assoc)
  then show ?case
    using step DaysInYear_bounds(2) [of "1970 + i"] by simp
qed

lemma DayFromYear_upper_neg: "k \<le> 0 \<Longrightarrow> DayFromYear (1970 + k) \<le> 365 * k"
proof (induction k rule: int_le_induct)
  case base
  then show ?case by (simp add: DayFromYear_1970)
next
  case (step i)
  have "DayFromYear (1970 + (i - 1)) = DayFromYear (1970 + i) - DaysInYear (1970 + i - 1)"
    using DayFromYear_pred [of "1970 + i"] by (simp add: algebra_simps)
  then show ?case
    using step DaysInYear_bounds(1) [of "1970 + i - 1"] by simp
qed

lemma year_search_eq:
  assumes "DayFromYear y \<le> d" and "d < DayFromYear (y + 1)" and "y0 \<le> y"
  shows "year_search d y0 = y"
  using assms(3)
proof (induction "nat (y - y0)" arbitrary: y0)
  case 0
  then have "y0 = y" by simp
  then show ?case
    using assms(2) by (simp add: year_search.simps [of d y])
next
  case (Suc n)
  then have lt: "y0 + 1 \<le> y" by simp
  then have "DayFromYear (y0 + 1) \<le> DayFromYear y"
    by (rule DayFromYear_mono)
  then have "DayFromYear (y0 + 1) \<le> d"
    using assms(1) by simp
  moreover have "year_search d (y0 + 1) = y"
    using Suc lt by simp
  ultimately show ?case
    by (simp add: year_search.simps [of d y0])
qed

lemma year_estimate:
  "DayFromYear (1970 + (if 0 \<le> d then d div 366 else d div 365) - 1) \<le> d"
proof (cases "0 \<le> d")
  case True
  define q where "q = d div 366"
  have q: "366 * q \<le> d" "0 \<le> q"
    using True by (simp_all add: q_def pos_imp_zdiv_nonneg_iff)
  show ?thesis
  proof (cases "q = 0")
    case True
    have "DayFromYear 1969 = - 365" by (simp add: DayFromYear_def)
    then show ?thesis using \<open>0 \<le> d\<close> True by (simp add: q_def [symmetric])
  next
    case False
    then have "0 \<le> q - 1" using q by simp
    then have "DayFromYear (1970 + (q - 1)) \<le> 366 * (q - 1)"
      by (rule DayFromYear_upper)
    then show ?thesis using q \<open>0 \<le> d\<close> by (simp add: q_def [symmetric] algebra_simps)
  qed
next
  case False
  define q where "q = d div 365"
  have q: "365 * q \<le> d" "q \<le> 0"
    using False by (simp_all add: q_def div_nonpos_pos_le0)
  have "DayFromYear (1970 + (q - 1)) \<le> 365 * (q - 1)"
    by (rule DayFromYear_upper_neg) (use q in simp)
  then show ?thesis using q False by (simp add: q_def [symmetric] algebra_simps)
qed

lemma YearFromDay_eq:
  assumes "DayFromYear y \<le> d" and "d < DayFromYear (y + 1)"
  shows "YearFromDay d = y"
proof -
  let ?y0 = "1970 + (if 0 \<le> d then d div 366 else d div 365) - 1"
  have "DayFromYear ?y0 < DayFromYear (y + 1)"
    using year_estimate [of d] assms(2) by simp
  then have "?y0 < y + 1"
    using DayFromYear_mono [of "y + 1" ?y0] by (cases "?y0 < y + 1") auto
  then show ?thesis
    unfolding YearFromDay_def by (intro year_search_eq assms) simp
qed

lemma month_start_values:
  "month_start l 0 = 0" "month_start l 1 = 31"
  "month_start l 2 = 59 + (if l then 1 else 0)" "month_start l 3 = 90 + (if l then 1 else 0)"
  "month_start l 4 = 120 + (if l then 1 else 0)" "month_start l 5 = 151 + (if l then 1 else 0)"
  "month_start l 6 = 181 + (if l then 1 else 0)" "month_start l 7 = 212 + (if l then 1 else 0)"
  "month_start l 8 = 243 + (if l then 1 else 0)" "month_start l 9 = 273 + (if l then 1 else 0)"
  "month_start l 10 = 304 + (if l then 1 else 0)" "month_start l 11 = 334 + (if l then 1 else 0)"
  by (simp_all add: month_start_def)

lemma month_cases:
  fixes m :: int
  assumes "1 \<le> m" "m \<le> 12"
  obtains "m = 1" | "m = 2" | "m = 3" | "m = 4" | "m = 5" | "m = 6" | "m = 7" | "m = 8"
    | "m = 9" | "m = 10" | "m = 11" | "m = 12"
proof -
  have "m = 1 \<or> m = 2 \<or> m = 3 \<or> m = 4 \<or> m = 5 \<or> m = 6 \<or> m = 7 \<or> m = 8
        \<or> m = 9 \<or> m = 10 \<or> m = 11 \<or> m = 12"
    using assms by arith
  then show thesis
    using that by blast
qed

text \<open>The day of the year of a calendar date lies inside its year.\<close>

lemma day_of_year_bounds:
  assumes "calendar_date y m d"
  shows "0 \<le> month_start (InLeapYear y) (m - 1) + d - 1"
    and "month_start (InLeapYear y) (m - 1) + d - 1 < DaysInYear y"
proof -
  from assms have m: "1 \<le> m" "m \<le> 12" and d: "1 \<le> d" "d \<le> days_in_month y m"
    by (simp_all add: calendar_date_def)
  from m show "0 \<le> month_start (InLeapYear y) (m - 1) + d - 1"
    by (cases rule: month_cases) (use d in \<open>simp_all add: month_start_values\<close>)
  from m show "month_start (InLeapYear y) (m - 1) + d - 1 < DaysInYear y"
    by (cases rule: month_cases)
      (use d in \<open>simp_all add: month_start_values days_in_month_def DaysInYear_def
         split: if_splits\<close>)
qed

lemma MakeDay_calendar:
  assumes "1 \<le> m" "m \<le> 12"
  shows "MakeDay y (m - 1) d = DayFromYear y + month_start (InLeapYear y) (m - 1) + d - 1"
proof -
  have "(m - 1) div 12 = 0" "(m - 1) mod 12 = m - 1"
    using assms by simp_all
  then show ?thesis
    by (simp add: MakeDay_def)
qed

lemma YearFromDay_MakeDay:
  assumes "calendar_date y m d"
  shows "YearFromDay (MakeDay y (m - 1) d) = y"
proof -
  have m: "1 \<le> m" "m \<le> 12"
    using assms by (simp_all add: calendar_date_def)
  show ?thesis
    unfolding MakeDay_calendar [OF m]
    using day_of_year_bounds [OF assms]
    by (intro YearFromDay_eq) (simp_all add: DayFromYear_Suc)
qed

lemma DayWithinYear_MakeDay:
  assumes "calendar_date y m d"
  shows "DayWithinYear (MakeDay y (m - 1) d) = month_start (InLeapYear y) (m - 1) + d - 1"
proof -
  have m: "1 \<le> m" "m \<le> 12"
    using assms by (simp_all add: calendar_date_def)
  show ?thesis
    unfolding DayWithinYear_def YearFromDay_MakeDay [OF assms]
    by (simp add: MakeDay_calendar [OF m])
qed

lemma MonthFromDay_MakeDay:
  assumes "calendar_date y m d"
  shows "MonthFromDay (MakeDay y (m - 1) d) = m - 1"
proof -
  from assms have m: "1 \<le> m" "m \<le> 12" and d: "1 \<le> d" "d \<le> days_in_month y m"
    by (simp_all add: calendar_date_def)
  define w where "w = month_start (InLeapYear y) (m - 1) + d - 1"
  define l where "l = InLeapYear y"
  have "MonthFromDay (MakeDay y (m - 1) d) =
     (if w < month_start l 1 then 0
      else if w < month_start l 2 then 1
      else if w < month_start l 3 then 2
      else if w < month_start l 4 then 3
      else if w < month_start l 5 then 4
      else if w < month_start l 6 then 5
      else if w < month_start l 7 then 6
      else if w < month_start l 8 then 7
      else if w < month_start l 9 then 8
      else if w < month_start l 10 then 9
      else if w < month_start l 11 then 10
      else 11)"
    unfolding MonthFromDay_def DayWithinYear_MakeDay [OF assms] YearFromDay_MakeDay [OF assms]
    by (simp add: Let_def w_def l_def)
  also from m have "\<dots> = m - 1"
    by (cases rule: month_cases)
      (use d in \<open>simp_all add: w_def l_def month_start_values days_in_month_def
         split: if_splits\<close>)
  finally show ?thesis .
qed

lemma DateFromDay_MakeDay:
  assumes "calendar_date y m d"
  shows "DateFromDay (MakeDay y (m - 1) d) = d"
  by (simp add: DateFromDay_def DayWithinYear_MakeDay [OF assms] YearFromDay_MakeDay [OF assms]
        MonthFromDay_MakeDay [OF assms])

text \<open>The day after a calendar date is a calendar date, one day later.\<close>

lemma month_start_next:
  assumes "1 \<le> m" "m < 12"
  shows "month_start (InLeapYear y) m = month_start (InLeapYear y) (m - 1) + days_in_month y m"
proof -
  from assms have "1 \<le> m" "m \<le> 12" by simp_all
  then show ?thesis
    by (cases rule: month_cases)
      (use assms in \<open>simp_all add: month_start_values days_in_month_def\<close>)
qed

lemma next_day_calendar:
  assumes "calendar_date y m d" and "next_day (y, m, d) = (y', m', d')"
  shows "calendar_date y' m' d'" and "MakeDay y' (m' - 1) d' = MakeDay y (m - 1) d + 1"
proof -
  from assms(1) have m: "1 \<le> m" "m \<le> 12" and d: "1 \<le> d" "d \<le> days_in_month y m"
    by (simp_all add: calendar_date_def)
  have dim: "28 \<le> days_in_month z k" for z k
    by (simp add: days_in_month_def)
  consider (day) "d < days_in_month y m" | (month) "d = days_in_month y m" "m < 12"
    | (year) "d = days_in_month y m" "m = 12"
    using m d by linarith
  then have "calendar_date y' m' d' \<and> MakeDay y' (m' - 1) d' = MakeDay y (m - 1) d + 1"
  proof cases
    case day
    then have e: "y' = y" "m' = m" "d' = d + 1"
      using assms(2) by (simp_all add: next_day_def)
    show ?thesis
      using day m d by (simp add: e calendar_date_def MakeDay_calendar)
  next
    case month
    then have e: "y' = y" "m' = m + 1" "d' = 1"
      using assms(2) by (simp_all add: next_day_def)
    have m': "1 \<le> m + 1" "m + 1 \<le> 12"
      using m month by simp_all
    have "MakeDay y m 1 = DayFromYear y + month_start (InLeapYear y) m"
      using MakeDay_calendar [OF m', of y 1] by simp
    then show ?thesis
      using month m dim [of y "m + 1"] month_start_next [of m y]
      by (simp add: e calendar_date_def MakeDay_calendar [OF m])
  next
    case year
    then have e: "y' = y + 1" "m' = 1" "d' = 1"
      using assms(2) by (simp_all add: next_day_def)
    show ?thesis
      using year dim [of "y + 1" 1]
      by (simp add: e calendar_date_def MakeDay_def DayFromYear_Suc month_start_values
            days_in_month_def DaysInYear_def)
  qed
  then show "calendar_date y' m' d'" and "MakeDay y' (m' - 1) d' = MakeDay y (m - 1) d + 1"
    by simp_all
qed

text \<open>Reading back the digits that \<open>toISOString\<close> writes.\<close>

lemma digit_char_mod_10 [simp]:
  "is_digit (digit_char (k mod 10))" "digit_val (digit_char (k mod 10)) = k mod 10"
  "digit_char (k mod 10) \<noteq> CHR ''T''"
proof -
  define j where "j = k mod 10"
  have "j \<le> 9"
    by (simp add: j_def)
  then have "j \<in> {9, 8, 7, 6, 5, 4, 3, 2, 1, 0}"
    by (simp add: insert_iff) arith
  then have "is_digit (digit_char j) \<and> digit_val (digit_char j) = j \<and> digit_char j \<noteq> CHR ''T''"
    by (elim insertE emptyE) (simp_all add: digit_char_def is_digit_def digit_val_def)
  then show "is_digit (digit_char (k mod 10))" "digit_val (digit_char (k mod 10)) = k mod 10"
    "digit_char (k mod 10) \<noteq> CHR ''T''"
    by (simp_all add: j_def)
qed

lemma length_pad [simp]: "length (pad2 n) = 2" "length (pad4 n) = 4" "length (pad6 n) = 6"
  by (simp_all add: pad2_def pad4_def pad6_def)

lemma digits_pad [simp]:
  "list_all is_digit (pad2 n)" "list_all is_digit (pad4 n)" "list_all is_digit (pad6 n)"
  by (simp_all add: pad2_def pad4_def pad6_def)

lemma no_T_pad [simp]:
  "CHR ''T'' \<notin> set (pad2 n)" "CHR ''T'' \<notin> set (pad4 n)" "CHR ''T'' \<notin> set (pad6 n)"
  using digit_char_mod_10(3) [symmetric] by (auto simp: pad2_def pad4_def pad6_def)

lemma nat_of_digits_pad2: "nat_of_digits (pad2 n) = n mod 100"
proof -
  have "n mod (10 * 10) = 10 * (n div 10 mod 10) + n mod 10"
    by (rule mod_mult2_eq)
  then show ?thesis
    by (simp add: nat_of_digits_def pad2_def)
qed

lemma nat_of_digits_append:
  "nat_of_digits (xs @ ys) = nat_of_digits xs * 10 ^ length ys + nat_of_digits ys"
proof -
  define f where "f = (\<lambda>n c. 10 * n + digit_val c)"
  have step: "foldl f a ys = a * 10 ^ length ys + foldl f 0 ys" for a
  proof (induction ys arbitrary: a rule: rev_induct)
    case Nil
    then show ?case by simp
  next
    case (snoc x xs)
    have "foldl f a (xs @ [x]) = 10 * foldl f a xs + digit_val x"
      by (simp add: f_def)
    also have "\<dots> = 10 * (a * 10 ^ length xs + foldl f 0 xs) + digit_val x"
      by (simp only: snoc [of a])
    also have "\<dots> = a * 10 ^ length (xs @ [x]) + (10 * foldl f 0 xs + digit_val x)"
      by (simp add: algebra_simps)
    also have "10 * foldl f 0 xs + digit_val x = foldl f 0 (xs @ [x])"
      by (simp add: f_def)
    finally show ?case .
  qed
  have "nat_of_digits (xs @ ys) = foldl f (foldl f 0 xs) ys"
    by (simp add: nat_of_digits_def f_def)
  also have "\<dots> = foldl f 0 xs * 10 ^ length ys + foldl f 0 ys"
    by (rule step)
  finally show ?thesis
    by (simp only: nat_of_digits_def f_def)
qed

lemma nat_of_digits_pad4: "n < 10000 \<Longrightarrow> nat_of_digits (pad4 n) = n"
proof -
  assume n: "n < 10000"
  have "n mod (100 * 100) = 100 * (n div 100 mod 100) + n mod 100"
    by (rule mod_mult2_eq)
  then show ?thesis
    using n by (simp add: pad4_def nat_of_digits_append nat_of_digits_pad2)
qed

lemma no_T_iso_date: "CHR ''T'' \<notin> set (iso_date y m d)"
  by (simp add: iso_date_def iso_year_def)

lemma split_T_iso_date: "split_T (iso_date y m d @ CHR ''T'' # rest) = iso_date y m d"
proof -
  have "takeWhile (\<lambda>c. c \<noteq> CHR ''T'') (iso_date y m d @ CHR ''T'' # rest)
        = iso_date y m d @ takeWhile (\<lambda>c. c \<noteq> CHR ''T'') (CHR ''T'' # rest)"
    by (rule takeWhile_append2) (use no_T_iso_date [of y m d] in auto)
  then show ?thesis
    by (simp add: split_T_def)
qed

lemma DayFromYear_range:
  assumes "0 \<le> y" "y \<le> 10000"
  shows "- 719528 \<le> DayFromYear y" and "DayFromYear y \<le> 2932897"
proof -
  have "DayFromYear 0 = - 719528" "DayFromYear 10000 = 2932897"
    by (simp_all add: DayFromYear_def)
  then show "- 719528 \<le> DayFromYear y" and "DayFromYear y \<le> 2932897"
    using DayFromYear_mono [OF assms(1)] DayFromYear_mono [OF assms(2)] by simp_all
qed

lemma Day_MakeDate: "Day (MakeDate t 0) = t" "TimeWithinDay (MakeDate t 0) = 0"
  by (simp_all add: Day_def TimeWithinDay_def MakeDate_def msPerDay_def)

lemma TimeClip_MakeDay:
  assumes "calendar_date y m d" "0 \<le> y" "y \<le> 10000"
  shows "TimeClip (MakeDate (MakeDay y (m - 1) d) 0) = Some (MakeDate (MakeDay y (m - 1) d) 0)"
proof -
  have m: "1 \<le> m" "m \<le> 12"
    using assms(1) by (simp_all add: calendar_date_def)
  define t where "t = MakeDay y (m - 1) d"
  have "- 719528 \<le> t" "t \<le> 2933263"
    using day_of_year_bounds [OF assms(1)] DayFromYear_range [OF assms(2,3)]
      DaysInYear_bounds(2) [of y]
    by (simp_all add: t_def MakeDay_calendar [OF m])
  then have "\<bar>t * 86400000\<bar> \<le> 8640000000000000"
    by linarith
  then show ?thesis
    by (simp add: TimeClip_def MakeDate_def msPerDay_def t_def)
qed

lemma new_Date_iso_date:
  assumes "calendar_date y m d" "0 \<le> y" "y \<le> 9999"
  shows "new_Date parse (iso_date y m d @ ''T00:00:00Z'') = Some (MakeDate (MakeDay y (m - 1) d) 0)"
proof -
  from assms(1) have m: "1 \<le> m" "m \<le> 12" and d: "1 \<le> d" "d \<le> days_in_month y m"
    by (simp_all add: calendar_date_def)
  have d31: "d \<le> 31"
    using d(2) by (simp add: days_in_month_def split: if_splits)
  have ny: "nat_of_digits (pad4 (nat y)) = nat y"
    using assms(2,3) by (simp add: nat_of_digits_pad4)
  have nm: "nat_of_digits (pad2 (nat m)) = nat m"
    using m by (simp add: nat_of_digits_pad2)
  have nd: "nat_of_digits (pad2 (nat d)) = nat d"
    using d d31 by (simp add: nat_of_digits_pad2)
  have "new_Date parse
          (pad4 (nat y) @ ''-'' @ pad2 (nat m) @ ''-'' @ pad2 (nat d) @ ''T00:00:00Z'')
        = TimeClip (MakeDate (MakeDay y (m - 1) d) 0)"
  proof -
    have "Suc 0 \<le> nat m" "nat m \<le> 12" "Suc 0 \<le> nat d" "nat d \<le> 31"
      using m d d31 by linarith+
    then show ?thesis
      using m d assms(2) by (simp add: new_Date_def ny nm nd nth_append)
  qed
  then show ?thesis
    using assms by (simp add: iso_date_def iso_year_def TimeClip_MakeDay)
qed

lemma formatDate_end_date:
  assumes cal: "calendar_date y m d" and y: "0 \<le> y" "y \<le> 9999"
    and s: "split_T s = iso_date y m d"
    and n: "next_day (y, m, d) = (y', m', d')"
  shows "formatDate parse (Str s) True = Inr (iso_date y' m' d')"
proof -
  define t where "t = MakeDay y (m - 1) d"
  have m: "1 \<le> m" "m \<le> 12"
    using cal by (simp_all add: calendar_date_def)
  have cal': "calendar_date y' m' d'" and t': "MakeDay y' (m' - 1) d' = t + 1"
    using next_day_calendar [OF cal n] by (simp_all add: t_def)
  have y': "0 \<le> y'" "y' \<le> 10000"
    using n y by (auto simp: next_day_def split: if_splits)
  have date: "new_Date parse (split_T s @ ''T00:00:00Z'') = Some (MakeDate t 0)"
    by (simp add: s t_def new_Date_iso_date [OF cal y])
  have get: "getUTCDate (Some (MakeDate t 0)) = Some d"
    by (simp add: getUTCDate_def Day_MakeDate t_def DateFromDay_MakeDay [OF cal])
  have "MakeDay y (m - 1) (d + 1) = t + 1"
    by (simp add: t_def MakeDay_calendar [OF m])
  then have set: "setUTCDate (Some (MakeDate t 0)) (Some (d + 1)) = Some (MakeDate (t + 1) 0)"
    using TimeClip_MakeDay [OF cal' y'] t'
    by (simp add: setUTCDate_def Day_MakeDate t_def YearFromDay_MakeDay [OF cal]
          MonthFromDay_MakeDay [OF cal])
  have time: "iso_time 0 = ''00:00:00.000''"
    by (simp add: iso_time_def pad2_def pad3_def digit_char_def)
  have "toISOString (Some (MakeDate (t + 1) 0)) = Inr (iso_date y' m' d' @ ''T00:00:00.000Z'')"
    unfolding t' [symmetric]
    by (simp add: toISOString_def Day_MakeDate time YearFromDay_MakeDay [OF cal']
          MonthFromDay_MakeDay [OF cal'] DateFromDay_MakeDay [OF cal'])
  then show ?thesis
    by (simp add: formatDate_def date get set split_T_iso_date)
qed

lemma formatDate_start_date: "formatDate parse (Str s) False = Inr (split_T s)"
  by (simp add: formatDate_def)

text \<open>
  C9. For an event whose \<open>dateStart\<close> and \<open>dateEnd\<close> are strings and whose \<open>dateEnd\<close> has
  the calendar date \<open>y-m-d\<close> (a four-digit year) before its first \<open>T\<close>, the request body is
  built, its \<open>start.date\<close> is the part of \<open>dateStart\<close> before the first \<open>T\<close>, its
  \<open>end.date\<close> is the calendar day after \<open>y-m-d\<close>, and this body is what CREATE and UPDATE
  hand to the calendar API.
\<close>

theorem buildEventData_all_day_dates:
  assumes "js_get event ''dateStart'' = Str s1" and "js_get event ''dateEnd'' = Str s2"
    and "split_T s2 = iso_date y m d" and "calendar_date y m d" and "0 \<le> y" and "y \<le> 9999"
  shows "\<exists>data. buildEventData (dateParse w) event = Inr data
           \<and> js_path data [''start'', ''date''] = Str (split_T s1)
           \<and> js_path data [''end'', ''date'']
               = Str (case next_day (y, m, d) of (y', m', d') \<Rightarrow> iso_date y' m' d')
           \<and> map fst (calls (snd (createCalendarEvent w calId event r)))
               = map fst (calls r) @ [EventsInsert calId data]
           \<and> map fst (calls (snd (updateCalendarEvent w calId gid event r)))
               = map fst (calls r) @ [EventsUpdate calId gid data]"
proof -
  obtain y' m' d' where n: "next_day (y, m, d) = (y', m', d')"
    by (cases "next_day (y, m, d)") auto
  have "formatDate (dateParse w) (Str s2) True = Inr (iso_date y' m' d')"
    using assms(4,5,6,3) n by (rule formatDate_end_date)
  then obtain data where data: "buildEventData (dateParse w) event = Inr data"
    and dates: "js_path data [''start'', ''date''] = Str (split_T s1)"
      "js_path data [''end'', ''date''] = Str (iso_date y' m' d')"
    by (simp add: buildEventData_def Let_def assms(1,2) formatDate_start_date js_get_Cons)
  have "map fst (calls (snd (createCalendarEvent w calId event r)))
          = map fst (calls r) @ [EventsInsert calId data]"
    by (simp add: createCalendarEvent_def data call_api_def Let_def split: api_outcome.split)
  moreover have "map fst (calls (snd (updateCalendarEvent w calId gid event r)))
          = map fst (calls r) @ [EventsUpdate calId gid data]"
    by (simp add: updateCalendarEvent_def data call_api_def Let_def split: api_outcome.split)
  ultimately show ?thesis
    using data dates n by simp
qed

theorem buildEventData_all_day_dates_witness:
  "\<exists>data. buildEventData (dateParse world0)
             [(''id'', Str ''A''), (''name'', Str ''X''),
              (''dateStart'', Str ''2025-01-07T00:00:00.000Z''),
              (''dateEnd'', Str ''2025-01-31T00:00:00.000Z'')] = Inr data
     \<and> js_path data [''start'', ''date''] = Str ''2025-01-07''
     \<and> js_path data [''end'', ''date''] = Str ''2025-02-01''
     \<and> map fst (calls (snd (createCalendarEvent world0 ''cal''
             [(''id'', Str ''A''), (''name'', Str ''X''),
              (''dateStart'', Str ''2025-01-07T00:00:00.000Z''),
              (''dateEnd'', Str ''2025-01-31T00:00:00.000Z'')] run0)))
         = [EventsInsert ''cal'' data]"
proof -
  let ?E = "[(''id'', Str ''A''), (''name'', Str ''X''),
             (''dateStart'', Str ''2025-01-07T00:00:00.000Z''),
             (''dateEnd'', Str ''2025-01-31T00:00:00.000Z'')]"
  have e1: "js_get ?E ''dateStart'' = Str ''2025-01-07T00:00:00.000Z''"
    and e2: "js_get ?E ''dateEnd'' = Str ''2025-01-31T00:00:00.000Z''"
    by (simp_all add: js_get_def)
  have e3: "split_T ''2025-01-31T00:00:00.000Z'' = iso_date 2025 1 31"
    by (simp add: split_T_def iso_date_def iso_year_def pad4_def pad2_def digit_char_def)
  have e4: "calendar_date 2025 1 31"
    by (simp add: calendar_date_def days_in_month_def)
  have n: "(case next_day (2025, 1, 31) of (y', m', d') \<Rightarrow> iso_date y' m' d') = ''2025-02-01''"
    by (simp add: next_day_def days_in_month_def iso_date_def iso_year_def pad4_def pad2_def
          digit_char_def)
  have s: "split_T ''2025-01-07T00:00:00.000Z'' = ''2025-01-07''"
    by (simp add: split_T_def)
  have c: "calls run0 = []"
    by (simp add: run0_def)
  have "\<exists>data. buildEventData (dateParse world0) ?E = Inr data
           \<and> js_path data [''start'', ''date''] = Str (split_T ''2025-01-07T00:00:00.000Z'')
           \<and> js_path data [''end'', ''date'']
               = Str (case next_day (2025, 1, 31) of (y', m', d') \<Rightarrow> iso_date y' m' d')
           \<and> map fst (calls (snd (createCalendarEvent world0 ''cal'' ?E run0)))
               = map fst (calls run0) @ [EventsInsert ''cal'' data]
           \<and> map fst (calls (snd (updateCalendarEvent world0 ''cal'' Undefined ?E run0)))
               = map fst (calls run0) @ [EventsUpdate ''cal'' Undefined data]"
    using e1 e2 e3 e4 by (rule buildEventData_all_day_dates) simp_all
  then obtain data where "buildEventData (dateParse world0) ?E = Inr data"
    and "js_path data [''start'', ''date''] = Str (split_T ''2025-01-07T00:00:00.000Z'')"
    and "js_path data [''end'', ''date'']
           = Str (case next_day (2025, 1, 31) of (y', m', d') \<Rightarrow> iso_date y' m' d')"
    and "map fst (calls (snd (createCalendarEvent world0 ''cal'' ?E run0)))
           = map fst (calls run0) @ [EventsInsert ''cal'' data]"
    by (elim exE conjE)
  then show ?thesis
    unfolding n s c by (intro exI [of _ data] conjI) simp_all
qed

section \<open>Properties of the repair pass\<close>

lemma js_delete_middle:
  assumes "k \<notin> fst ` set pre" and "k \<notin> fst ` set post"
  shows "js_delete (pre @ (k, v) # post) k = pre @ post"
proof -
  have "filter (\<lambda>(k', _). k \<noteq> k') pre = pre" "filter (\<lambda>(k', _). k \<noteq> k') post = post"
    using assms by (auto simp: filter_id_conv image_iff)
  then show ?thesis
    by (simp add: js_delete_def AList.delete_eq)
qed

text \<open>
  The loop of the repair pass, started on the records \<open>es\<close> that are still to be checked
  while the object holds \<open>pre @ es\<close>: one existence check for each record, in order; the
  records that stay are those whose check did not end in a not-found.
\<close>

lemma repair_events_summary:
  assumes "distinct (map fst es)" and "fst ` set pre \<inter> fst ` set es = {}"
    and "repairEvents p = pre @ es"
  shows "\<exists>cs. repairTrace (repair_events w c es p)
                = (repairTrace p)\<lparr>calls := calls (repairTrace p) @ cs\<rparr>
           \<and> map fst cs = map (\<lambda>(i, rec). EventsGet c (googleEventId rec)) es
           \<and> repairEvents (repair_events w c es p)
               = pre @ map fst (filter (\<lambda>(x, (q, out)). \<not> not_found out) (zip es cs))
           \<and> repairedCount (repair_events w c es p)
               = repairedCount p + length (filter (\<lambda>(q, out). not_found out) cs)"
  using assms
proof (induction es arbitrary: p pre)
  case Nil
  then show ?case by simp
next
  case (Cons x es)
  obtain i rec where x: "x = (i, rec)"
    by (cases x)
  define q where "q = EventsGet c (googleEventId rec)"
  define out where "out = api w (map fst (calls (repairTrace p))) q"
  define r1 where "r1 = (repairTrace p)\<lparr>calls := calls (repairTrace p) @ [(q, out)]\<rparr>"
  have call: "call_api w q (repairTrace p) = (out, r1)"
    by (simp add: call_api_def Let_def out_def r1_def)
  have i: "i \<notin> fst ` set pre" "i \<notin> fst ` set es" and dist: "distinct (map fst es)"
    using Cons.prems(1,2) by (auto simp: x)
  show ?case
  proof (cases "not_found out")
    case True
    define p1 where "p1 = p\<lparr>repairEvents := js_delete (repairEvents p) i,
                            repairedCount := repairedCount p + 1, repairTrace := r1\<rparr>"
    have step: "repair_events w c (x # es) p = repair_events w c es p1"
      using True call by (cases out) (simp_all add: x q_def [symmetric] p1_def)
    have "repairEvents p1 = pre @ es"
      using i by (simp add: p1_def Cons.prems(3) x js_delete_middle)
    moreover have "fst ` set pre \<inter> fst ` set es = {}"
      using Cons.prems(2) by auto
    ultimately obtain cs where cs:
      "repairTrace (repair_events w c es p1) = (repairTrace p1)\<lparr>calls := calls (repairTrace p1) @ cs\<rparr>"
      "map fst cs = map (\<lambda>(i, rec). EventsGet c (googleEventId rec)) es"
      "repairEvents (repair_events w c es p1)
         = pre @ map fst (filter (\<lambda>(x, (q, out)). \<not> not_found out) (zip es cs))"
      "repairedCount (repair_events w c es p1)
         = repairedCount p1 + length (filter (\<lambda>(q, out). not_found out) cs)"
      using Cons.IH [OF dist, of pre p1] by blast
    have "repairTrace p1 = r1" "repairedCount p1 = repairedCount p + 1"
      by (simp_all add: p1_def)
    then show ?thesis
      unfolding step
      by (intro exI [of _ "(q, out) # cs"]) (simp add: cs x q_def [symmetric] True r1_def)
  next
    case False
    define p1 where "p1 = p\<lparr>repairTrace := r1\<rparr>"
    have step: "repair_events w c (x # es) p = repair_events w c es p1"
      using False call by (cases out) (simp_all add: x q_def [symmetric] p1_def)
    have "repairEvents p1 = (pre @ [(i, rec)]) @ es"
      by (simp add: p1_def Cons.prems(3) x)
    moreover have "fst ` set (pre @ [(i, rec)]) \<inter> fst ` set es = {}"
      using Cons.prems(2) i by auto
    ultimately obtain cs where cs:
      "repairTrace (repair_events w c es p1) = (repairTrace p1)\<lparr>calls := calls (repairTrace p1) @ cs\<rparr>"
      "map fst cs = map (\<lambda>(i, rec). EventsGet c (googleEventId rec)) es"
      "repairEvents (repair_events w c es p1)
         = (pre @ [(i, rec)]) @ map fst (filter (\<lambda>(x, (q, out)). \<not> not_found out) (zip es cs))"
      "repairedCount (repair_events w c es p1)
         = repairedCount p1 + length (filter (\<lambda>(q, out). not_found out) cs)"
      using Cons.IH [OF dist, of "pre @ [(i, rec)]" p1] by blast
    have "repairTrace p1 = r1" "repairedCount p1 = repairedCount p"
      by (simp_all add: p1_def)
    then show ?thesis
      unfolding step
      by (intro exI [of _ "(q, out) # cs"]) (simp add: cs x q_def [symmetric] False r1_def)
  qed
qed

text \<open>
  C6. A repair pass checks every record of the sport once, in order; it removes exactly
  the records whose check is rejected with the error code 404 and keeps every other record
  as it is; it reports the number of records removed and the number of records examined,
  and saves the state when it has removed a record.
\<close>

theorem repairSyncState_purges_not_found:
  assumes "authorize w = None" and "loadSyncState w = Inr syncState"
    and "map_of (sports syncState) sportId = Some st"
    and "distinct (map fst (events st))"
  shows "\<exists>cs. map fst cs
                = map (\<lambda>(i, rec). EventsGet (calendarId st) (googleEventId rec)) (events st)
           \<and> (let kept = map fst (filter (\<lambda>(x, (q, out)). \<not> not_found out)
                                      (zip (events st) cs));
                   n = length (filter (\<lambda>(q, out). not_found out) cs);
                   syncState' = syncState\<lparr>sports :=
                                  js_put (sports syncState) sportId (st\<lparr>events := kept\<rparr>)\<rparr>;
                   r1 = r\<lparr>calls := calls r @ cs\<rparr>
               in repairSyncState w sportId r =
                    (if n > 0 then
                       (case saveSyncState w syncState' r1 of
                          (Some e, r') \<Rightarrow> (Inl e, r')
                        | (None, r') \<Rightarrow>
                            (Inr \<lparr>repaired = n, total = length (events st)\<rparr>, r'))
                     else (Inr \<lparr>repaired = 0, total = length (events st)\<rparr>, r1)))"
proof -
  define p0 where "p0 = \<lparr>repairEvents = events st, repairedCount = 0, repairTrace = r\<rparr>"
  define p where "p = repair_events w (calendarId st) (events st) p0"
  have "\<exists>cs. repairTrace p = (repairTrace p0)\<lparr>calls := calls (repairTrace p0) @ cs\<rparr>
           \<and> map fst cs
               = map (\<lambda>(i, rec). EventsGet (calendarId st) (googleEventId rec)) (events st)
           \<and> repairEvents p
               = [] @ map fst (filter (\<lambda>(x, (q, out)). \<not> not_found out) (zip (events st) cs))
           \<and> repairedCount p
               = repairedCount p0 + length (filter (\<lambda>(q, out). not_found out) cs)"
    unfolding p_def by (rule repair_events_summary [OF assms(4)]) (simp_all add: p0_def)
  then obtain cs where cs: "repairTrace p = r\<lparr>calls := calls r @ cs\<rparr>"
    "map fst cs = map (\<lambda>(i, rec). EventsGet (calendarId st) (googleEventId rec)) (events st)"
    "repairEvents p = map fst (filter (\<lambda>(x, (q, out)). \<not> not_found out) (zip (events st) cs))"
    "repairedCount p = length (filter (\<lambda>(q, out). not_found out) cs)"
    by (auto simp: p0_def)
  have look: "obj_lookup (sports syncState) sportId = Own st"
    by (simp add: obj_lookup_def assms(3))
  have "repairSyncState w sportId r =
          (if repairedCount p > 0 then
             (case saveSyncState w
                     (syncState\<lparr>sports :=
                        js_put (sports syncState) sportId (st\<lparr>events := repairEvents p\<rparr>)\<rparr>)
                     (repairTrace p) of
                (Some e, r') \<Rightarrow> (Inl e, r')
              | (None, r') \<Rightarrow>
                  (Inr \<lparr>repaired = repairedCount p, total = length (events st)\<rparr>, r'))
           else (Inr \<lparr>repaired = repairedCount p, total = length (events st)\<rparr>, repairTrace p))"
    unfolding p_def p0_def by (simp add: repairSyncState_def assms(1,2) look Let_def)
  then show ?thesis
    unfolding cs Let_def by (intro exI [of _ cs] conjI) (simp_all add: cs)
qed

theorem repairSyncState_purges_not_found_witness:
  "(\<exists>cs. map fst cs
            = map (\<lambda>(i, rec). EventsGet (calendarId sport1) (googleEventId rec)) (events sport1)
       \<and> (let kept = map fst (filter (\<lambda>(x, (q, out)). \<not> not_found out)
                                  (zip (events sport1) cs));
               n = length (filter (\<lambda>(q, out). not_found out) cs);
               syncState' = state1\<lparr>sports :=
                              js_put (sports state1) ''bwf'' (sport1\<lparr>events := kept\<rparr>)\<rparr>;
               r1 = run0\<lparr>calls := calls run0 @ cs\<rparr>
           in repairSyncState world404 ''bwf'' run0 =
                (if n > 0 then
                   (case saveSyncState world404 syncState' r1 of
                      (Some e, r') \<Rightarrow> (Inl e, r')
                    | (None, r') \<Rightarrow>
                        (Inr \<lparr>repaired = n, total = length (events sport1)\<rparr>, r'))
                 else (Inr \<lparr>repaired = 0, total = length (events sport1)\<rparr>, r1))))
   \<and> fst (repairSyncState world404 ''bwf'' run0) = Inr \<lparr>repaired = 1, total = 2\<rparr>
   \<and> map_option sports (written (snd (repairSyncState world404 ''bwf'' run0)))
       = Some [(''bwf'',
                sport1\<lparr>events :=
                  [(''B'', \<lparr>googleEventId = ''g2'', lastSynced = ''t'', hash = ''h2''\<rparr>)]\<rparr>)]"
proof (intro conjI)
  show "\<exists>cs. map fst cs
            = map (\<lambda>(i, rec). EventsGet (calendarId sport1) (googleEventId rec)) (events sport1)
       \<and> (let kept = map fst (filter (\<lambda>(x, (q, out)). \<not> not_found out)
                                  (zip (events sport1) cs));
               n = length (filter (\<lambda>(q, out). not_found out) cs);
               syncState' = state1\<lparr>sports :=
                              js_put (sports state1) ''bwf'' (sport1\<lparr>events := kept\<rparr>)\<rparr>;
               r1 = run0\<lparr>calls := calls run0 @ cs\<rparr>
           in repairSyncState world404 ''bwf'' run0 =
                (if n > 0 then
                   (case saveSyncState world404 syncState' r1 of
                      (Some e, r') \<Rightarrow> (Inl e, r')
                    | (None, r') \<Rightarrow>
                        (Inr \<lparr>repaired = n, total = length (events sport1)\<rparr>, r'))
                 else (Inr \<lparr>repaired = 0, total = length (events sport1)\<rparr>, r1)))"
    by (rule repairSyncState_purges_not_found)
      (simp_all add: world404_def world0_def loadSyncState_def state1_def sport1_def)
  show "fst (repairSyncState world404 ''bwf'' run0) = Inr \<lparr>repaired = 1, total = 2\<rparr>"
    by code_simp
  show "map_option sports (written (snd (repairSyncState world404 ''bwf'' run0)))
       = Some [(''bwf'',
                sport1\<lparr>events :=
                  [(''B'', \<lparr>googleEventId = ''g2'', lastSynced = ''t'', hash = ''h2''\<rparr>)]\<rparr>)]"
    by code_simp
qed


end
